theory Spec2Isabelle
  imports
    Complex_Main
    "HOL-Library.Log_Nat"
    "HOL-Library.Char_ord"
    "HOL-Library.List_Lexorder"
begin

section \<open>Python values used by the data layer\<close>

text \<open>
  The data layer (\<^verbatim>\<open>data.py\<close>) converts between Chrome timestamps (an \<^verbatim>\<open>int\<close>,
  microseconds since 1601-01-01) and naive local \<^verbatim>\<open>datetime\<close> objects, through Python
  floats. Python integers are unbounded: \<^typ>\<open>int\<close>. A Python float is an IEEE-754
  binary64 value; it is represented by the rational number it denotes, and every float
  operation rounds its exact result with \<open>fl\<close> (round to nearest, ties to even).
  Exceptions are values of \<open>py_error\<close> (\<open>SqliteError\<close> stands for the exceptions of the
  \<^verbatim>\<open>sqlite3\<close> module).
\<close>

datatype py_error = OverflowError | ValueError | SqliteError

subsection \<open>Floats\<close>

definition pow2 :: "int \<Rightarrow> rat" where
  "pow2 k = (if 0 \<le> k then 2 ^ nat k else 1 / 2 ^ nat (- k))"

definition round_half_even :: "rat \<Rightarrow> int" where
  "round_half_even x =
     (let f = \<lfloor>x\<rfloor>; d = x - of_int f
      in if d < 1 / 2 then f else if 1 / 2 < d then f + 1 else if even f then f else f + 1)"

text \<open>\<open>float_exponent x\<close> is \<open>\<lfloor>log\<^sub>2 \<bar>x\<bar>\<rfloor>\<close> for \<open>x \<noteq> 0\<close>, computed from the bit lengths
  of numerator and denominator.\<close>

definition float_exponent :: "rat \<Rightarrow> int" where
  "float_exponent x =
     (case quotient_of \<bar>x\<bar> of (a, b) \<Rightarrow>
        let n = bitlen a - bitlen b in if pow2 n \<le> \<bar>x\<bar> then n else n - 1)"

text \<open>Rounding to binary64: 53 significant bits, the spacing never below \<open>2\<^sup>-\<^sup>1\<^sup>0\<^sup>7\<^sup>4\<close>
  (subnormals). Overflow is checked where the source can raise it.\<close>

definition fl :: "rat \<Rightarrow> rat" where
  "fl x =
     (if x = 0 then 0
      else let q = pow2 (max (float_exponent x - 52) (- 1074))
           in of_int (round_half_even (x / q)) * q)"

definition float_overflow :: "rat \<Rightarrow> bool" where
  "float_overflow x \<longleftrightarrow> 2 ^ 1024 \<le> \<bar>x\<bar>"

text \<open>\<^verbatim>\<open>int(x)\<close> on a float truncates toward zero.\<close>

definition py_int_of_float :: "rat \<Rightarrow> int" where
  "py_int_of_float x = (if 0 \<le> x then \<lfloor>x\<rfloor> else \<lceil>x\<rceil>)"

definition int64 :: "int \<Rightarrow> bool" where
  "int64 i \<longleftrightarrow> - (2 ^ 63) \<le> i \<and> i < 2 ^ 63"

subsection \<open>Naive datetimes and the proleptic Gregorian calendar\<close>

text \<open>
  A \<^verbatim>\<open>datetime\<close> without \<^verbatim>\<open>tzinfo\<close>. The \<^verbatim>\<open>fold\<close> attribute is 0 for every datetime the
  constructor builds and is ignored by comparison and formatting; it is not represented.
  The calendar functions follow \<^verbatim>\<open>_ymd2ord\<close> and \<^verbatim>\<open>_ord2ymd\<close> of the standard
  library: day 1 is 0001-01-01.
\<close>

record datetime =
  year :: int
  month :: int
  day :: int
  hour :: int
  minute :: int
  second :: int
  microsecond :: int

definition is_leap :: "int \<Rightarrow> bool" where
  "is_leap y \<longleftrightarrow> y mod 4 = 0 \<and> (y mod 100 \<noteq> 0 \<or> y mod 400 = 0)"

definition days_before_year :: "int \<Rightarrow> int" where
  "days_before_year y = (let p = y - 1 in p * 365 + p div 4 - p div 100 + p div 400)"

definition DAYS_IN_MONTH :: "int list" where
  "DAYS_IN_MONTH = [31, 28, 31, 30, 31, 30, 31, 31, 30, 31, 30, 31]"

definition days_in_month :: "int \<Rightarrow> int \<Rightarrow> int" where
  "days_in_month y m = (if m = 2 \<and> is_leap y then 29 else DAYS_IN_MONTH ! nat (m - 1))"

definition days_before_month :: "bool \<Rightarrow> int \<Rightarrow> int" where
  "days_before_month leap m =
     sum_list (take (nat (m - 1)) DAYS_IN_MONTH) + (if 2 < m \<and> leap then 1 else 0)"

definition ymd2ord :: "int \<Rightarrow> int \<Rightarrow> int \<Rightarrow> int" where
  "ymd2ord y m d = days_before_year y + days_before_month (is_leap y) m + d"

definition ord2ymd :: "int \<Rightarrow> int \<times> int \<times> int" where
  "ord2ymd ord =
     (let n = ord - 1;
          n400 = n div 146097; r400 = n mod 146097;
          n100 = r400 div 36524; r100 = r400 mod 36524;
          n4 = r100 div 1461; r4 = r100 mod 1461;
          n1 = r4 div 365; r1 = r4 mod 365;
          y = n400 * 400 + 1 + n100 * 100 + n4 * 4 + n1
      in if n1 = 4 \<or> n100 = 4 then (y - 1, 12, 31)
         else
           let leapyear = (n1 = 3 \<and> (n4 \<noteq> 24 \<or> n100 = 3));
               m = (r1 + 50) div 32;
               preceding = days_before_month leapyear m
           in if r1 < preceding
              then (y, m - 1,
                    r1 - (preceding - (if m - 1 = 2 \<and> leapyear then 29
                                       else DAYS_IN_MONTH ! nat (m - 2))) + 1)
              else (y, m, r1 - preceding + 1))"

definition valid_datetime :: "datetime \<Rightarrow> bool" where
  "valid_datetime dt \<longleftrightarrow>
     1 \<le> year dt \<and> year dt \<le> 9999 \<and> 1 \<le> month dt \<and> month dt \<le> 12 \<and>
     1 \<le> day dt \<and> day dt \<le> days_in_month (year dt) (month dt) \<and>
     0 \<le> hour dt \<and> hour dt < 24 \<and> 0 \<le> minute dt \<and> minute dt < 60 \<and>
     0 \<le> second dt \<and> second dt < 60 \<and> 0 \<le> microsecond dt \<and> microsecond dt < 1000000"

text \<open>
  Seconds of a broken-down time on the wall-clock line, counted from
  1970-01-01T00:00:00 (CPython's \<^verbatim>\<open>utc_to_seconds\<close> counts from day 0 and subtracts the
  constant \<^verbatim>\<open>epoch = 719163 * 86400\<close> at each use; the subtraction is done here).
\<close>

definition utc_to_seconds :: "datetime \<Rightarrow> int" where
  "utc_to_seconds dt =
     (((ymd2ord (year dt) (month dt) (day dt) - 719163) * 24 + hour dt) * 60 + minute dt) * 60
       + second dt"

definition seconds_to_datetime :: "int \<Rightarrow> int \<Rightarrow> datetime" where
  "seconds_to_datetime w us =
     (case ord2ymd (w div 86400 + 719163) of (y, m, d) \<Rightarrow>
        \<lparr>year = y, month = m, day = d,
         hour = (w mod 86400) div 3600, minute = (w mod 3600) div 60, second = w mod 60,
         microsecond = us\<rparr>)"

text \<open>Wall-clock seconds of \<^verbatim>\<open>datetime.min\<close> (0001-01-01T00:00:00) and of the last second
  of \<^verbatim>\<open>datetime.max\<close> (9999-12-31T23:59:59).\<close>

definition MIN_WALL :: int where "MIN_WALL = - 62135596800"
definition MAX_WALL :: int where "MAX_WALL = 253402300799"

subsection \<open>The local time zone\<close>

text \<open>
  \<^verbatim>\<open>datetime.fromtimestamp\<close> and \<^verbatim>\<open>datetime.timestamp\<close> use the local zone of the process.
  A zone is the UTC offset, in seconds, in force at each instant (Unix seconds).
  \<open>local\<close> is the platform's \<^verbatim>\<open>localtime\<close> followed by the year check of
  \<^verbatim>\<open>utc_to_seconds\<close>: it fails when the broken-down year is outside 1..9999.
\<close>

type_synonym zone = "int \<Rightarrow> int"

definition local :: "zone \<Rightarrow> int \<Rightarrow> py_error + int" where
  "local tz u =
     (if \<not> int64 u then Inl OverflowError
      else let w = u + tz u
           in if MIN_WALL \<le> w \<and> w \<le> MAX_WALL then Inr w else Inl ValueError)"

definition max_fold_seconds :: int where
  "max_fold_seconds = 24 * 3600"

text \<open>\<^verbatim>\<open>local_to_seconds\<close> of CPython with \<^verbatim>\<open>fold = 0\<close>: solve \<open>t = local u\<close> for \<open>u\<close>.\<close>

definition local_to_seconds_rest ::
  "zone \<Rightarrow> int \<Rightarrow> int \<Rightarrow> int \<Rightarrow> int \<Rightarrow> py_error + int" where
  "local_to_seconds_rest tz t u1 t1 b =
     (let u2 = t - b
      in case local tz u2 of
           Inl e \<Rightarrow> Inl e
         | Inr t2 \<Rightarrow>
             if t2 = t then Inr u2
             else if t1 = t then Inr u1
             else Inr (max u1 u2))"

definition local_to_seconds :: "zone \<Rightarrow> int \<Rightarrow> py_error + int" where
  "local_to_seconds tz t =
     (case local tz t of
        Inl e \<Rightarrow> Inl e
      | Inr lt \<Rightarrow>
          let a = lt - t; u1 = t - a
          in case local tz u1 of
               Inl e \<Rightarrow> Inl e
             | Inr t1 \<Rightarrow>
                 if t1 = t then
                   (let u2 = u1 - max_fold_seconds
                    in case local tz u2 of
                         Inl e \<Rightarrow> Inl e
                       | Inr lt2 \<Rightarrow>
                           let b = lt2 - u2
                           in if a = b then Inr u1
                              else local_to_seconds_rest tz t u1 t1 b)
                 else local_to_seconds_rest tz t u1 t1 (t1 - u1))"

text \<open>\<^verbatim>\<open>dt.timestamp()\<close> for a naive datetime: a float.\<close>

definition py_timestamp :: "zone \<Rightarrow> datetime \<Rightarrow> py_error + rat" where
  "py_timestamp tz dt =
     (case local_to_seconds tz (utc_to_seconds dt) of
        Inl e \<Rightarrow> Inl e
      | Inr u \<Rightarrow> Inr (fl (fl (of_int u) + fl (of_int (microsecond dt) / 1000000))))"

text \<open>
  \<^verbatim>\<open>datetime.fromtimestamp(d)\<close> for a float \<open>d\<close>: split with \<^verbatim>\<open>modf\<close>, round the fraction
  to microseconds (half to even; \<^verbatim>\<open>_PyTime_ObjectToTimeval\<close>), break the seconds down in
  the local zone, and probe one day earlier to detect a fold (the probes can fail; the
  fold bit itself is dropped).
\<close>

definition timestamp_to_timeval :: "rat \<Rightarrow> int \<times> int" where
  "timestamp_to_timeval d =
     (let intpart = py_int_of_float d;
          floatpart = round_half_even (fl ((d - of_int intpart) * 1000000))
      in if 1000000 \<le> floatpart then (intpart + 1, floatpart - 1000000)
         else if floatpart < 0 then (intpart - 1, floatpart + 1000000)
         else (intpart, floatpart))"

definition datetime_from_timet_and_us :: "zone \<Rightarrow> int \<Rightarrow> int \<Rightarrow> py_error + datetime" where
  "datetime_from_timet_and_us tz timet us =
     (case local tz timet of
        Inl e \<Rightarrow> Inl e
      | Inr result_seconds \<Rightarrow>
          (case local tz (timet - max_fold_seconds) of
             Inl e \<Rightarrow> Inl e
           | Inr probe_seconds \<Rightarrow>
               let transition = result_seconds - probe_seconds - max_fold_seconds
               in if transition < 0 then
                    (case local tz (timet + transition) of
                       Inl e \<Rightarrow> Inl e
                     | Inr probe2 \<Rightarrow> Inr (seconds_to_datetime result_seconds us))
                  else Inr (seconds_to_datetime result_seconds us)))"

definition py_fromtimestamp :: "zone \<Rightarrow> rat \<Rightarrow> py_error + datetime" where
  "py_fromtimestamp tz d =
     (case timestamp_to_timeval d of (timet, us) \<Rightarrow> datetime_from_timet_and_us tz timet us)"

section \<open>Timestamp codec (\<^verbatim>\<open>data.py\<close>)\<close>

definition CHROME_EPOCH_OFFSET :: int where
  "CHROME_EPOCH_OFFSET = 11644473600"

text \<open>
  \<^verbatim>\<open>chrome_time / 1_000_000\<close> is the true division of two ints: the correctly rounded
  quotient, or OverflowError when it is too large for a float.
\<close>

definition chrome_time_to_datetime :: "zone \<Rightarrow> int \<Rightarrow> py_error + datetime" where
  "chrome_time_to_datetime tz chrome_time =
     (let q = fl (of_int chrome_time / 1000000)
      in if float_overflow q then Inl OverflowError
         else let unix_timestamp = fl (q - of_int CHROME_EPOCH_OFFSET)
              in py_fromtimestamp tz unix_timestamp)"

definition datetime_to_chrome_time :: "zone \<Rightarrow> datetime \<Rightarrow> py_error + int" where
  "datetime_to_chrome_time tz dt =
     (case py_timestamp tz dt of
        Inl e \<Rightarrow> Inl e
      | Inr unix_timestamp \<Rightarrow>
          Inr (py_int_of_float
                 (fl (fl (unix_timestamp + of_int CHROME_EPOCH_OFFSET) * 1000000))))"

text \<open>Two zones for concrete runs: UTC, and US Pacific time with its 2024 daylight-saving
  period (2024-03-10T10:00:00Z to 2024-11-03T09:00:00Z at UTC-7, UTC-8 otherwise).\<close>

definition utc_zone :: zone where
  "utc_zone u = 0"

definition pacific_zone :: zone where
  "pacific_zone u = (if 1710064800 \<le> u \<and> u < 1730624400 then - 25200 else - 28800)"

section \<open>Strings\<close>

text \<open>
  Python \<^verbatim>\<open>str\<close> values are \<^typ>\<open>string\<close>s (characters with codes up to 255); comparison
  is lexicographic by character code, a proper prefix being smaller (the order of
  \<^verbatim>\<open>List_Lexorder\<close> over \<^verbatim>\<open>Char_ord\<close>). In UTF-8 a character with a code of 128 or
  more takes two bytes. \<^verbatim>\<open>str.strip\<close> removes the whitespace of Unicode.
  Formatting a field with \<^verbatim>\<open>%02d\<close>, \<^verbatim>\<open>%04d\<close> or \<^verbatim>\<open>%06d\<close> gives its decimal digits,
  zero-padded; the fields of a valid datetime never exceed the width.
\<close>

definition digit_char :: "int \<Rightarrow> char" where
  "digit_char d = ''0123456789'' ! nat d"

fun zero_pad :: "nat \<Rightarrow> int \<Rightarrow> string" where
  "zero_pad 0 n = []"
| "zero_pad (Suc w) n = zero_pad w (n div 10) @ [digit_char (n mod 10)]"

definition isoformat :: "datetime \<Rightarrow> string" where
  "isoformat dt =
     zero_pad 4 (year dt) @ ''-'' @ zero_pad 2 (month dt) @ ''-'' @ zero_pad 2 (day dt) @ ''T'' @
     zero_pad 2 (hour dt) @ '':'' @ zero_pad 2 (minute dt) @ '':'' @ zero_pad 2 (second dt) @
     (if microsecond dt \<noteq> 0 then ''.'' @ zero_pad 6 (microsecond dt) else [])"

text \<open>\<^verbatim>\<open>strftime("%Y-%m-%d %H:%M:%S")\<close>\<close>

definition strftime :: "datetime \<Rightarrow> string" where
  "strftime dt =
     zero_pad 4 (year dt) @ ''-'' @ zero_pad 2 (month dt) @ ''-'' @ zero_pad 2 (day dt) @ '' '' @
     zero_pad 2 (hour dt) @ '':'' @ zero_pad 2 (minute dt) @ '':'' @ zero_pad 2 (second dt)"

definition utf8_length :: "string \<Rightarrow> nat" where
  "utf8_length s = length s + length (filter (\<lambda>c. 128 \<le> (of_char c :: nat)) s)"

definition is_space :: "char \<Rightarrow> bool" where
  "is_space c \<longleftrightarrow> of_char c \<in> {9, 10, 11, 12, 13, 28, 29, 30, 31, 32, 133, 160 :: nat}"

definition strip :: "string \<Rightarrow> string" where
  "strip s = rev (dropWhile is_space (rev (dropWhile is_space s)))"

definition is_digit :: "char \<Rightarrow> bool" where
  "is_digit c \<longleftrightarrow> CHR ''0'' \<le> c \<and> c \<le> CHR ''9''"

definition digit_value :: "char \<Rightarrow> int" where
  "digit_value c = int (of_char c) - 48"

definition digits_value :: "string \<Rightarrow> int" where
  "digits_value s = foldl (\<lambda>acc c. acc * 10 + digit_value c) 0 s"

text \<open>
  \<^verbatim>\<open>s[start:stop]\<close> on a list: a negative index counts from the end, and both ends are
  clamped to the list.
\<close>

definition slice_index :: "nat \<Rightarrow> int \<Rightarrow> nat" where
  "slice_index n i = (if i < 0 then nat (max 0 (i + int n)) else min (nat i) n)"

definition py_slice :: "'a list \<Rightarrow> int \<Rightarrow> int \<Rightarrow> 'a list" where
  "py_slice xs start stop =
     (let s = slice_index (length xs) start; e = slice_index (length xs) stop
      in take (e - s) (drop s xs))"

text \<open>\<^verbatim>\<open>xs.sort(key=k, reverse=True)\<close>: descending and stable (elements with equal keys
  keep their order): the list is reversed, sorted stably, and reversed again.\<close>

definition sort_desc :: "('a \<Rightarrow> 'k::linorder) \<Rightarrow> 'a list \<Rightarrow> 'a list" where
  "sort_desc k xs = rev (sort_key k (rev xs))"

section \<open>The history store\<close>

text \<open>
  A snapshot file is an SQLite database with the tables \<^verbatim>\<open>urls(id, url, title)\<close> and
  \<^verbatim>\<open>visits(id, url, visit_time)\<close>; \<^verbatim>\<open>title\<close> may be NULL.
\<close>

record urls_row =
  urls_id :: int
  urls_url :: string
  urls_title :: "string option"

record visits_row =
  visits_id :: int
  visits_url :: int
  visits_visit_time :: int

record history_db =
  urls :: "urls_row list"
  visits :: "visits_row list"

type_synonym joined_row = "urls_row \<times> visits_row"

text \<open>
  The pair \<^verbatim>\<open>(where, params)\<close> of \<^verbatim>\<open>_build_where_clause\<close>: the clauses joined by
  \<^verbatim>\<open>AND\<close>, each with the parameters bound to its \<^verbatim>\<open>?\<close> marks; no clause is \<^verbatim>\<open>1=1\<close>.
\<close>

datatype clause =
    UrlOrTitleLike string string
  | VisitTimeGe int
  | VisitTimeLe int

text \<open>
  What is at a path: a file that is no SQLite database with these tables (every
  statement on it raises), a database, or a damaged database. On a damaged file (and on
  one that another process locks from time to time) each statement raises or returns on
  its own account, depending on the pages it reads: such a file is described by what the
  \<^verbatim>\<open>COUNT\<close> statement returns for a WHERE clause, if it returns, and by the rows that the
  row statement finds for a WHERE clause, a limit and an offset (before \<^verbatim>\<open>LIMIT\<close> and
  \<^verbatim>\<open>OFFSET\<close> cut them), if it returns. The file system maps a path to the file there, if
  any.
\<close>

datatype snapshot =
    Unreadable
  | Database history_db
  | Corrupt "clause list \<Rightarrow> nat option" "clause list \<Rightarrow> int \<Rightarrow> int \<Rightarrow> joined_row list option"

type_synonym filesystem = "string \<Rightarrow> snapshot option"

text \<open>\<^verbatim>\<open>FROM visits JOIN urls ON visits.url = urls.id\<close>\<close>

definition joined :: "history_db \<Rightarrow> joined_row list" where
  "joined db =
     concat (map (\<lambda>v. map (\<lambda>u. (u, v)) (filter (\<lambda>u. urls_id u = visits_url v) (urls db)))
                 (visits db))"

text \<open>
  SQLite's \<^verbatim>\<open>LIKE\<close>. A pattern of more than 50000 bytes (in UTF-8) raises
  (\<^verbatim>\<open>LIKE or GLOB pattern too complex\<close>).
  Pattern and text are read up to their first NUL character. In what is read, \<^verbatim>\<open>%\<close>
  matches any run of characters, \<^verbatim>\<open>_\<close> exactly one, any other character itself, upper
  and lower case ASCII letters being equal.
\<close>

definition c_string :: "string \<Rightarrow> string" where
  "c_string s = takeWhile (\<lambda>c. c \<noteq> CHR 0x00) s"

definition ascii_lower :: "char \<Rightarrow> char" where
  "ascii_lower c =
     (case map_of (zip ''ABCDEFGHIJKLMNOPQRSTUVWXYZ'' ''abcdefghijklmnopqrstuvwxyz'') c of
        None \<Rightarrow> c
      | Some l \<Rightarrow> l)"

fun like_match :: "string \<Rightarrow> string \<Rightarrow> bool" where
  "like_match [] s = (s = [])"
| "like_match (p # ps) [] = (p = CHR ''%'' \<and> like_match ps [])"
| "like_match (p # ps) (c # cs) =
     (if p = CHR ''%'' then like_match ps (c # cs) \<or> like_match (p # ps) cs
      else (p = CHR ''_'' \<or> ascii_lower p = ascii_lower c) \<and> like_match ps cs)"

definition like :: "string \<Rightarrow> string \<Rightarrow> py_error + bool" where
  "like p s =
     (if 50000 < utf8_length p then Inl SqliteError
      else Inr (like_match (c_string p) (c_string s)))"

text \<open>
  The WHERE clause on a row of the join. A NULL title matches no pattern. SQLite tests
  the conditions on \<^verbatim>\<open>visits.visit_time\<close> when it reads a visit and the keyword
  condition once it has looked up the URL of a visit that passed them, so an over-long
  pattern raises only when some visit gets that far; the first row that raises ends the
  statement.
\<close>

fun on_visit :: "clause \<Rightarrow> bool" where
  "on_visit (UrlOrTitleLike p1 p2) = False"
| "on_visit (VisitTimeGe c) = True"
| "on_visit (VisitTimeLe c) = True"

fun eval_clause :: "clause \<Rightarrow> joined_row \<Rightarrow> py_error + bool" where
  "eval_clause (UrlOrTitleLike p1 p2) (u, v) =
     (case like p1 (urls_url u) of
        Inl e \<Rightarrow> Inl e
      | Inr b \<Rightarrow>
          if b then Inr True
          else (case urls_title u of None \<Rightarrow> Inr False | Some t \<Rightarrow> like p2 t))"
| "eval_clause (VisitTimeGe c) (u, v) = Inr (c \<le> visits_visit_time v)"
| "eval_clause (VisitTimeLe c) (u, v) = Inr (visits_visit_time v \<le> c)"

fun eval_all :: "clause list \<Rightarrow> joined_row \<Rightarrow> py_error + bool" where
  "eval_all [] row = Inr True"
| "eval_all (c # cs) row =
     (case eval_clause c row of
        Inl e \<Rightarrow> Inl e
      | Inr b \<Rightarrow> if b then eval_all cs row else Inr False)"

definition eval_where :: "clause list \<Rightarrow> joined_row \<Rightarrow> py_error + bool" where
  "eval_where w row = eval_all (filter on_visit w @ filter (\<lambda>c. \<not> on_visit c) w) row"

fun where_rows :: "clause list \<Rightarrow> joined_row list \<Rightarrow> py_error + joined_row list" where
  "where_rows w [] = Inr []"
| "where_rows w (row # rows) =
     (case eval_where w row of
        Inl e \<Rightarrow> Inl e
      | Inr b \<Rightarrow>
          (case where_rows w rows of
             Inl e \<Rightarrow> Inl e
           | Inr rest \<Rightarrow> Inr (if b then row # rest else rest)))"

text \<open>\<^verbatim>\<open>LIMIT ? OFFSET ?\<close>: a negative limit is no limit, a negative offset is 0.\<close>

definition limit_offset :: "'a list \<Rightarrow> int \<Rightarrow> int \<Rightarrow> 'a list" where
  "limit_offset rows limit offset =
     (let rest = drop (nat offset) rows in if limit < 0 then rest else take (nat limit) rest)"

text \<open>The rows a query selects, in the order of \<^verbatim>\<open>ORDER BY visits.visit_time DESC\<close>
  (SQL leaves the order of equal visit times open; they are kept in join order).\<close>

definition select_rows :: "history_db \<Rightarrow> clause list \<Rightarrow> py_error + joined_row list" where
  "select_rows db w =
     (case where_rows w (joined db) of
        Inl e \<Rightarrow> Inl e
      | Inr rows \<Rightarrow> Inr (sort_desc (\<lambda>row. visits_visit_time (snd row)) rows))"

text \<open>Binding the parameters: a Python int outside 64 bits is no SQLite integer, and
  \<^verbatim>\<open>execute\<close> raises OverflowError.\<close>

fun bindable :: "clause \<Rightarrow> bool" where
  "bindable (UrlOrTitleLike p1 p2) = True"
| "bindable (VisitTimeGe c) = int64 c"
| "bindable (VisitTimeLe c) = int64 c"

section \<open>Query builder (\<^verbatim>\<open>_build_where_clause\<close>)\<close>

text \<open>
  \<^verbatim>\<open>if keyword:\<close> is false for \<^verbatim>\<open>None\<close> and for the empty string; a datetime is always
  true. Converting a date can raise (the exception leaves \<^verbatim>\<open>search_history\<close>).
\<close>

definition build_where_clause ::
  "zone \<Rightarrow> string option \<Rightarrow> datetime option \<Rightarrow> datetime option \<Rightarrow> py_error + clause list" where
  "build_where_clause tz keyword start_date end_date =
     (let clauses1 =
            (case keyword of
               None \<Rightarrow> []
             | Some k \<Rightarrow>
                 if k = [] then []
                 else let keyword_pattern = ''%'' @ k @ ''%''
                      in [UrlOrTitleLike keyword_pattern keyword_pattern])
      in case (case start_date of
                 None \<Rightarrow> Inr clauses1
               | Some sd \<Rightarrow>
                   (case datetime_to_chrome_time tz sd of
                      Inl e \<Rightarrow> Inl e
                    | Inr c \<Rightarrow> Inr (clauses1 @ [VisitTimeGe c]))) of
           Inl e \<Rightarrow> Inl e
         | Inr clauses2 \<Rightarrow>
             (case end_date of
                None \<Rightarrow> Inr clauses2
              | Some ed \<Rightarrow>
                  let end_of_day = \<lparr>year = year ed, month = month ed, day = day ed,
                                    hour = 23, minute = 59, second = 59, microsecond = 0\<rparr>
                  in case datetime_to_chrome_time tz end_of_day of
                       Inl e \<Rightarrow> Inl e
                     | Inr c \<Rightarrow> Inr (clauses2 @ [VisitTimeLe c])))"

section \<open>Per-profile executor\<close>

text \<open>The dictionaries \<^verbatim>\<open>_query_profile_rows\<close> returns.\<close>

record visit_record =
  rec_url :: string
  rec_title :: string
  rec_visit_time :: string
  rec_visit_time_display :: string
  rec_profile :: string

text \<open>
  The body of the \<^verbatim>\<open>try\<close> block of \<^verbatim>\<open>_query_profile_count\<close>: \<^verbatim>\<open>connect\<close> (read-only) and
  \<^verbatim>\<open>execute\<close> raise for a missing file and for one that is no database; on a damaged
  file the statement raises or not. The handler \<^verbatim>\<open>except Exception\<close> turns every
  exception into \<^verbatim>\<open>0\<close>.
\<close>

definition execute_count :: "filesystem \<Rightarrow> string \<Rightarrow> clause list \<Rightarrow> py_error + int" where
  "execute_count fs db_path w =
     (case fs db_path of
        None \<Rightarrow> Inl SqliteError
      | Some Unreadable \<Rightarrow> Inl SqliteError
      | Some (Database db) \<Rightarrow>
          if list_all bindable w then
            (case where_rows w (joined db) of
               Inl e \<Rightarrow> Inl e
             | Inr rows \<Rightarrow> Inr (int (length rows)))
          else Inl OverflowError
      | Some (Corrupt count_result rows_result) \<Rightarrow>
          if list_all bindable w then
            (case count_result w of
               None \<Rightarrow> Inl SqliteError
             | Some n \<Rightarrow> Inr (int n))
          else Inl OverflowError)"

definition query_profile_count :: "filesystem \<Rightarrow> string \<Rightarrow> clause list \<Rightarrow> int" where
  "query_profile_count fs db_path w =
     (case execute_count fs db_path w of
        Inl e \<Rightarrow> 0
      | Inr count \<Rightarrow> count)"

text \<open>
  The statement of \<^verbatim>\<open>_query_profile_rows\<close> with \<^verbatim>\<open>fetchall\<close>, in its own \<^verbatim>\<open>try\<close> block;
  \<^verbatim>\<open>limit\<close> and \<^verbatim>\<open>offset\<close> are bound as SQLite integers too. With \<^verbatim>\<open>LIMIT 0\<close> the
  statement ends before it reads a row.
\<close>

definition execute_rows ::
  "filesystem \<Rightarrow> string \<Rightarrow> clause list \<Rightarrow> int \<Rightarrow> int \<Rightarrow> py_error + joined_row list" where
  "execute_rows fs db_path w limit offset =
     (case fs db_path of
        None \<Rightarrow> Inl SqliteError
      | Some Unreadable \<Rightarrow> Inl SqliteError
      | Some (Database db) \<Rightarrow>
          if list_all bindable w \<and> int64 limit \<and> int64 offset then
            if limit = 0 then Inr []
            else
              (case select_rows db w of
                 Inl e \<Rightarrow> Inl e
               | Inr rows \<Rightarrow> Inr (limit_offset rows limit offset))
          else Inl OverflowError
      | Some (Corrupt count_result rows_result) \<Rightarrow>
          if list_all bindable w \<and> int64 limit \<and> int64 offset then
            (case rows_result w limit offset of
               None \<Rightarrow> Inl SqliteError
             | Some rows \<Rightarrow> Inr (limit_offset rows limit offset))
          else Inl OverflowError)"

text \<open>The loop over \<^verbatim>\<open>cursor.fetchall()\<close>; a visit time that cannot be converted raises.\<close>

fun rows_to_results :: "zone \<Rightarrow> string \<Rightarrow> joined_row list \<Rightarrow> py_error + visit_record list" where
  "rows_to_results tz prof [] = Inr []"
| "rows_to_results tz prof (row # rows) =
     (case chrome_time_to_datetime tz (visits_visit_time (snd row)) of
        Inl e \<Rightarrow> Inl e
      | Inr visit_time \<Rightarrow>
          (case rows_to_results tz prof rows of
             Inl e \<Rightarrow> Inl e
           | Inr results \<Rightarrow>
               Inr (\<lparr>rec_url = urls_url (fst row),
                     rec_title = (case urls_title (fst row) of
                                    None \<Rightarrow> ''(No title)''
                                  | Some t \<Rightarrow> if t = [] then ''(No title)'' else t),
                     rec_visit_time = isoformat visit_time,
                     rec_visit_time_display = strftime visit_time,
                     rec_profile = prof\<rparr> # results)))"

text \<open>The handler of \<^verbatim>\<open>_query_profile_rows\<close> turns every exception, of the statement or
  of the loop, into \<^verbatim>\<open>[]\<close>.\<close>

definition query_profile_rows ::
  "zone \<Rightarrow> filesystem \<Rightarrow> string \<Rightarrow> clause list \<Rightarrow> int \<Rightarrow> int \<Rightarrow> string \<Rightarrow> visit_record list" where
  "query_profile_rows tz fs db_path w limit offset prof =
     (case execute_rows fs db_path w limit offset of
        Inl e \<Rightarrow> []
      | Inr rows \<Rightarrow>
          (case rows_to_results tz prof rows of
             Inl e \<Rightarrow> []
           | Inr results \<Rightarrow> results))"

section \<open>Cross-profile merge coordinator (\<^verbatim>\<open>search_history\<close>)\<close>

definition TEMP_DIR :: string where
  "TEMP_DIR = ''/tmp/arc_history_search''"

definition get_history_db_path :: "filesystem \<Rightarrow> string \<Rightarrow> string option" where
  "get_history_db_path fs prof =
     (let path = TEMP_DIR @ ''/'' @ prof @ ''_History''
      in if fs path \<noteq> None then Some path else None)"

definition active_profiles_of :: "filesystem \<Rightarrow> string list \<Rightarrow> (string \<times> string) list" where
  "active_profiles_of fs profiles =
     concat (map (\<lambda>prof. case get_history_db_path fs prof of
                             None \<Rightarrow> []
                           | Some db_path \<Rightarrow> [(prof, db_path)]) profiles)"

definition search_history ::
  "zone \<Rightarrow> filesystem \<Rightarrow> string option \<Rightarrow> datetime option \<Rightarrow> datetime option \<Rightarrow>
   string list option \<Rightarrow> int \<Rightarrow> int \<Rightarrow> py_error + (visit_record list \<times> int)" where
  "search_history tz fs keyword start_date end_date profiles page per_page =
     (let profiles = (case profiles of None \<Rightarrow> [''default'', ''profile7''] | Some ps \<Rightarrow> ps)
      in case build_where_clause tz keyword start_date end_date of
           Inl e \<Rightarrow> Inl e
         | Inr w \<Rightarrow>
             let active_profiles = active_profiles_of fs profiles
             in if active_profiles = [] then Inr ([], 0)
                else if length active_profiles = 1 then
                  (case hd active_profiles of (prof, db_path) \<Rightarrow>
                     let total_count = query_profile_count fs db_path w;
                         offset = (page - 1) * per_page;
                         results = query_profile_rows tz fs db_path w per_page offset prof
                     in Inr (results, total_count))
                else
                  let total_count =
                        sum_list (map (\<lambda>(prof, db_path). query_profile_count fs db_path w)
                                      active_profiles);
                      fetch_limit = page * per_page;
                      all_results =
                        concat (map (\<lambda>(prof, db_path).
                                       query_profile_rows tz fs db_path w fetch_limit 0 prof)
                                    active_profiles);
                      sorted_results = sort_desc rec_visit_time all_results;
                      start_idx = (page - 1) * per_page;
                      end_idx = start_idx + per_page;
                      paginated_results = py_slice sorted_results start_idx end_idx
                  in Inr (paginated_results, total_count))"

section \<open>The HTTP route (\<^verbatim>\<open>app.py\<close>)\<close>

text \<open>
  \<^verbatim>\<open>int(s)\<close> on a string: surrounding whitespace (the six ASCII whitespace characters,
  and NEL and the no-break space, which \<^verbatim>\<open>int\<close> turns into spaces first; not the
  separators 28 to 31, which \<^verbatim>\<open>str.strip\<close> removes), an optional sign, decimal digits
  with single underscores between them, at most 4300 digits; anything else raises
  ValueError.
\<close>

definition is_int_space :: "char \<Rightarrow> bool" where
  "is_int_space c \<longleftrightarrow> of_char c \<in> {9, 10, 11, 12, 13, 32, 133, 160 :: nat}"

fun int_body :: "string \<Rightarrow> bool" where
  "int_body [] = False"
| "int_body [c] = is_digit c"
| "int_body (c # d # r) = (is_digit c \<and> (if d = CHR ''_'' then int_body r else int_body (d # r)))"

definition py_int_of_str :: "string \<Rightarrow> py_error + int" where
  "py_int_of_str s =
     (let t = rev (dropWhile is_int_space (rev (dropWhile is_int_space s)));
          neg = (t \<noteq> [] \<and> hd t = CHR ''-'');
          body = (if t \<noteq> [] \<and> (hd t = CHR ''-'' \<or> hd t = CHR ''+'') then tl t else t)
      in if int_body body \<and> length (filter is_digit body) \<le> 4300
         then Inr ((if neg then - 1 else 1) * digits_value (filter is_digit body))
         else Inl ValueError)"

text \<open>
  \<^verbatim>\<open>date.fromisoformat(s)\<close> as CPython 3.11 parses it: the string has 7, 8 or 10 bytes in
  UTF-8 and starts with \<^verbatim>\<open>YYYY-MM-DD\<close>, \<^verbatim>\<open>YYYYMMDD\<close>, or a week date \<^verbatim>\<open>YYYY-Www\<close>,
  \<^verbatim>\<open>YYYY-Www-D\<close>, \<^verbatim>\<open>YYYYWww\<close>, \<^verbatim>\<open>YYYYWwwD\<close>; what follows the date within these
  lengths is not looked at. The date must be one of the calendar, years 1 to 9999.
\<close>

definition parse_digits :: "string \<Rightarrow> nat \<Rightarrow> (int \<times> string) option" where
  "parse_digits p n =
     (if n \<le> length p \<and> list_all is_digit (take n p)
      then Some (digits_value (take n p), drop n p)
      else None)"

definition iso_week1_monday :: "int \<Rightarrow> int" where
  "iso_week1_monday y =
     (let first_day = ymd2ord y 1 1;
          first_weekday = (first_day + 6) mod 7;
          week1_monday = first_day - first_weekday
      in if 3 < first_weekday then week1_monday + 7 else week1_monday)"

text \<open>Week 53 exists in years that start on a Thursday, and in leap years that start on
  a Wednesday. Year 0000 names no date.\<close>

definition iso_to_ymd :: "int \<Rightarrow> int \<Rightarrow> int \<Rightarrow> (int \<times> int \<times> int) option" where
  "iso_to_ymd iso_year iso_week iso_day =
     (let first_weekday = (ymd2ord iso_year 1 1 + 6) mod 7;
          has_week_53 = (first_weekday = 3 \<or> (first_weekday = 2 \<and> is_leap iso_year))
      in if iso_year < 1 then None
         else if (iso_week \<le> 0 \<or> 53 \<le> iso_week) \<and> \<not> (iso_week = 53 \<and> has_week_53) then None
         else if iso_day \<le> 0 \<or> 8 \<le> iso_day then None
         else Some (ord2ymd (iso_week1_monday iso_year + (iso_week - 1) * 7 + iso_day - 1)))"

definition parse_isoformat_date :: "string \<Rightarrow> (int \<times> int \<times> int) option" where
  "parse_isoformat_date s =
     (case parse_digits s 4 of
        None \<Rightarrow> None
      | Some (y, p1) \<Rightarrow>
          let uses_separator = (p1 \<noteq> [] \<and> hd p1 = CHR ''-'');
              p2 = (if uses_separator then tl p1 else p1)
          in if p2 \<noteq> [] \<and> hd p2 = CHR ''W'' then
               (case parse_digits (tl p2) 2 of
                  None \<Rightarrow> None
                | Some (iso_week, p3) \<Rightarrow>
                    if p3 \<noteq> [] then
                      if uses_separator \<and> hd p3 \<noteq> CHR ''-'' then None
                      else
                        (case parse_digits (if uses_separator then tl p3 else p3) 1 of
                           None \<Rightarrow> None
                         | Some (iso_day, p4) \<Rightarrow> iso_to_ymd y iso_week iso_day)
                    else iso_to_ymd y iso_week 1)
             else
               (case parse_digits p2 2 of
                  None \<Rightarrow> None
                | Some (m, p3) \<Rightarrow>
                    if uses_separator \<and> (p3 = [] \<or> hd p3 \<noteq> CHR ''-'') then None
                    else
                      (case parse_digits (if uses_separator then tl p3 else p3) 2 of
                         None \<Rightarrow> None
                       | Some (d, p4) \<Rightarrow> Some (y, m, d))))"

definition date_fromisoformat :: "string \<Rightarrow> py_error + (int \<times> int \<times> int)" where
  "date_fromisoformat s =
     (case (if utf8_length s \<in> {7, 8, 10} then parse_isoformat_date s else None) of
        None \<Rightarrow> Inl ValueError
      | Some (y, m, d) \<Rightarrow>
          if 1 \<le> y \<and> y \<le> 9999 \<and> 1 \<le> m \<and> m \<le> 12 \<and> 1 \<le> d \<and> d \<le> days_in_month y m
          then Inr (y, m, d) else Inl ValueError)"

text \<open>\<^verbatim>\<open>request.args\<close>: the query parameters in order; \<^verbatim>\<open>get\<close> takes the first value.\<close>

definition args_get :: "(string \<times> string) list \<Rightarrow> string \<Rightarrow> string \<Rightarrow> string" where
  "args_get args key dflt = (case map_of args key of None \<Rightarrow> dflt | Some v \<Rightarrow> v)"

definition PER_PAGE :: int where
  "PER_PAGE = 50"

record response =
  resp_results :: "visit_record list"
  resp_total_count :: int
  resp_page :: int
  resp_per_page :: int
  resp_total_pages :: int

definition parse_date_arg :: "string \<Rightarrow> datetime option" where
  "parse_date_arg date_str =
     (if date_str \<noteq> [] then
        (case date_fromisoformat date_str of
           Inl e \<Rightarrow> None
         | Inr (y, m, d) \<Rightarrow>
             Some \<lparr>year = y, month = m, day = d, hour = 0, minute = 0, second = 0,
                   microsecond = 0\<rparr>)
      else None)"

definition search :: "zone \<Rightarrow> filesystem \<Rightarrow> (string \<times> string) list \<Rightarrow> py_error + response" where
  "search tz fs args =
     (let q = strip (args_get args ''q'' []);
          keyword = (if q \<noteq> [] then Some q else None);
          start_date_str = strip (args_get args ''start'' []);
          end_date_str = strip (args_get args ''end'' []);
          prof = args_get args ''profile'' ''both''
      in case (case map_of args ''page'' of None \<Rightarrow> Inr 1 | Some v \<Rightarrow> py_int_of_str v) of
           Inl e \<Rightarrow> Inl e
         | Inr page \<Rightarrow>
             let start_date = parse_date_arg start_date_str;
                 end_date = parse_date_arg end_date_str;
                 profiles = (if prof = ''default'' then [''default'']
                             else if prof = ''profile7'' then [''profile7'']
                             else [''default'', ''profile7''])
             in case search_history tz fs keyword start_date end_date (Some profiles) page
                       PER_PAGE of
                  Inl e \<Rightarrow> Inl e
                | Inr (results, total_count) \<Rightarrow>
                    let total_pages = (total_count + PER_PAGE - 1) div PER_PAGE
                    in Inr \<lparr>resp_results = results, resp_total_count = total_count,
                            resp_page = page, resp_per_page = PER_PAGE,
                            resp_total_pages = total_pages\<rparr>)"

section \<open>Example data\<close>

text \<open>
  Two snapshots after the test fixture: profile \<^verbatim>\<open>default\<close> has visits at
  2024-01-01T10:00 and 2024-02-01T14:00 (UTC), profile \<^verbatim>\<open>profile7\<close> at 2024-01-15T12:00
  and 2024-02-15T16:00.
\<close>

definition example_urls :: "urls_row list" where
  "example_urls =
     [\<lparr>urls_id = 1, urls_url = ''https://github.com/anthropics/claude'',
       urls_title = Some ''Anthropic Claude''\<rparr>,
      \<lparr>urls_id = 2, urls_url = ''https://google.com/search?q=python'',
       urls_title = Some ''Python - Google Search''\<rparr>,
      \<lparr>urls_id = 3, urls_url = ''https://example.com/page'', urls_title = None\<rparr>]"

definition example_db_a :: history_db where
  "example_db_a =
     \<lparr>urls = example_urls,
      visits = [\<lparr>visits_id = 1, visits_url = 1, visits_visit_time = 13348576800000000\<rparr>,
                \<lparr>visits_id = 2, visits_url = 2, visits_visit_time = 13351269600000000\<rparr>]\<rparr>"

definition example_db_b :: history_db where
  "example_db_b =
     \<lparr>urls = example_urls,
      visits = [\<lparr>visits_id = 1, visits_url = 3, visits_visit_time = 13349793600000000\<rparr>,
                \<lparr>visits_id = 2, visits_url = 1, visits_visit_time = 13352486400000000\<rparr>]\<rparr>"

definition example_fs :: filesystem where
  "example_fs path =
     (if path = ''/tmp/arc_history_search/default_History'' then Some (Database example_db_a)
      else if path = ''/tmp/arc_history_search/profile7_History'' then Some (Database example_db_b)
      else None)"

text \<open>A wall-clock time that the Pacific zone skips (clocks go from 02:00 to 03:00 on
  2024-03-10), and one that it does not.\<close>

definition gap_time :: datetime where
  "gap_time = \<lparr>year = 2024, month = 3, day = 10, hour = 2, minute = 30, second = 0,
                microsecond = 0\<rparr>"

definition summer_time :: datetime where
  "summer_time = \<lparr>year = 2024, month = 6, day = 15, hour = 14, minute = 30, second = 45,
                   microsecond = 0\<rparr>"

text \<open>The response to \<^verbatim>\<open>GET /search?profile=default\<close> over the example data in UTC.\<close>

definition example_response :: response where
  "example_response =
     \<lparr>resp_results =
        [\<lparr>rec_url = ''https://google.com/search?q=python'',
          rec_title = ''Python - Google Search'',
          rec_visit_time = ''2024-02-01T14:00:00'',
          rec_visit_time_display = ''2024-02-01 14:00:00'',
          rec_profile = ''default''\<rparr>,
         \<lparr>rec_url = ''https://github.com/anthropics/claude'',
          rec_title = ''Anthropic Claude'',
          rec_visit_time = ''2024-01-01T10:00:00'',
          rec_visit_time_display = ''2024-01-01 10:00:00'',
          rec_profile = ''default''\<rparr>],
      resp_total_count = 2, resp_page = 1, resp_per_page = 50, resp_total_pages = 1\<rparr>"





text \<open>
  The spec's words for the keyword filter, "contains the keyword as a case-insensitive
  substring": some suffix of the text starts with the keyword, letter case ignored.
\<close>

fun ci_prefix :: "string \<Rightarrow> string \<Rightarrow> bool" where
  "ci_prefix [] s = True"
| "ci_prefix (k # ks) [] = False"
| "ci_prefix (k # ks) (c # cs) = (ascii_lower k = ascii_lower c \<and> ci_prefix ks cs)"

fun ci_substring :: "string \<Rightarrow> string \<Rightarrow> bool" where
  "ci_substring k [] = ci_prefix k []"
| "ci_substring k (c # cs) = (ci_prefix k (c # cs) \<or> ci_substring k cs)"

text \<open>A joined row whose URL is \<^verbatim>\<open>abc\<close> and whose title is NULL.\<close>

definition abc_row :: joined_row where
  "abc_row = (\<lparr>urls_id = 1, urls_url = ''abc'', urls_title = None\<rparr>,
              \<lparr>visits_id = 1, visits_url = 1, visits_visit_time = 13348576800000000\<rparr>)"

text \<open>A joined row that mentions Python in its title only.\<close>

definition python_row :: joined_row where
  "python_row = (\<lparr>urls_id = 2, urls_url = ''https://google.com/search?q=py'',
                   urls_title = Some ''Python - Google Search''\<rparr>,
                 \<lparr>visits_id = 2, visits_url = 2, visits_visit_time = 13351269600000000\<rparr>)"

text \<open>A start date that carries a time of day, and a visit on the morning of that day.\<close>

definition afternoon :: datetime where
  "afternoon = \<lparr>year = 2024, month = 2, day = 1, hour = 15, minute = 0, second = 0,
                 microsecond = 0\<rparr>"

definition morning_row :: joined_row where
  "morning_row = (\<lparr>urls_id = 3, urls_url = ''https://example.com/page'', urls_title = None\<rparr>,
                  \<lparr>visits_id = 3, visits_url = 3, visits_visit_time = 13351255200000000\<rparr>)"

text \<open>
  The spec's words for the merged page: the union of all records matching the filter's
  predicate across the resolved profiles (here each with the stored time of its visit),
  sorted by visit time descending, and the window \<open>[(page-1)*per_page, page*per_page)\<close> of
  that. The visit time of a record is read both ways: as the \<^verbatim>\<open>visit_time\<close> field of the
  record (\<open>merged_page\<close>) and as the stored time of the visit (\<open>merged_page_by_instant\<close>).
  \<open>stored_times\<close> gives the stored times of the visits that a record stands for.
\<close>

definition matching_visits ::
  "zone \<Rightarrow> filesystem \<Rightarrow> clause list \<Rightarrow> string \<times> string \<Rightarrow> (int \<times> visit_record) list" where
  "matching_visits tz fs w p =
     (case p of (prof, db_path) \<Rightarrow>
        (case fs db_path of
           Some (Database db) \<Rightarrow>
             concat (map (\<lambda>row. case rows_to_results tz prof [row] of
                                   Inl e \<Rightarrow> []
                                 | Inr results \<Rightarrow>
                                     map (\<lambda>r. (visits_visit_time (snd row), r)) results)
                         (filter (\<lambda>row. eval_where w row = Inr True) (joined db)))
         | _ \<Rightarrow> []))"

definition merged_page ::
  "zone \<Rightarrow> filesystem \<Rightarrow> clause list \<Rightarrow> (string \<times> string) list \<Rightarrow> int \<Rightarrow> int \<Rightarrow>
   visit_record list" where
  "merged_page tz fs w active_profiles page per_page =
     py_slice
       (map snd (sort_desc (\<lambda>x. rec_visit_time (snd x))
                   (concat (map (matching_visits tz fs w) active_profiles))))
       ((page - 1) * per_page) (page * per_page)"

definition merged_page_by_instant ::
  "zone \<Rightarrow> filesystem \<Rightarrow> clause list \<Rightarrow> (string \<times> string) list \<Rightarrow> int \<Rightarrow> int \<Rightarrow>
   visit_record list" where
  "merged_page_by_instant tz fs w active_profiles page per_page =
     py_slice
       (map snd (sort_desc fst (concat (map (matching_visits tz fs w) active_profiles))))
       ((page - 1) * per_page) (page * per_page)"

definition stored_times ::
  "zone \<Rightarrow> filesystem \<Rightarrow> clause list \<Rightarrow> (string \<times> string) list \<Rightarrow> visit_record \<Rightarrow> int list" where
  "stored_times tz fs w active_profiles r =
     map fst (filter (\<lambda>x. snd x = r) (concat (map (matching_visits tz fs w) active_profiles)))"

text \<open>
  Snapshots around the end of daylight saving time in the Pacific zone (2024-11-03,
  09:00Z). Profile \<^verbatim>\<open>default\<close>: a visit at 09:10Z (01:10 local, after the clocks went
  back) and one at 08:30Z (01:30 local); profile \<^verbatim>\<open>profile7\<close>: a visit at 08:20Z (01:20
  local).
\<close>

definition dst_db_a :: history_db where
  "dst_db_a =
     \<lparr>urls = [\<lparr>urls_id = 1, urls_url = ''https://late.example'', urls_title = Some ''late''\<rparr>,
              \<lparr>urls_id = 2, urls_url = ''https://early.example'', urls_title = Some ''early''\<rparr>],
      visits = [\<lparr>visits_id = 1, visits_url = 1, visits_visit_time = 13375098600000000\<rparr>,
                \<lparr>visits_id = 2, visits_url = 2, visits_visit_time = 13375096200000000\<rparr>]\<rparr>"

definition dst_db_b :: history_db where
  "dst_db_b =
     \<lparr>urls = [\<lparr>urls_id = 1, urls_url = ''https://other.example'', urls_title = Some ''other''\<rparr>],
      visits = [\<lparr>visits_id = 1, visits_url = 1, visits_visit_time = 13375095600000000\<rparr>]\<rparr>"

definition dst_fs :: filesystem where
  "dst_fs path =
     (if path = ''/tmp/arc_history_search/default_History'' then Some (Database dst_db_a)
      else if path = ''/tmp/arc_history_search/profile7_History'' then Some (Database dst_db_b)
      else None)"

definition late_record :: visit_record where
  "late_record = \<lparr>rec_url = ''https://late.example'', rec_title = ''late'',
                   rec_visit_time = ''2024-11-03T01:10:00'',
                   rec_visit_time_display = ''2024-11-03 01:10:00'', rec_profile = ''default''\<rparr>"

definition early_record :: visit_record where
  "early_record = \<lparr>rec_url = ''https://early.example'', rec_title = ''early'',
                    rec_visit_time = ''2024-11-03T01:30:00'',
                    rec_visit_time_display = ''2024-11-03 01:30:00'', rec_profile = ''default''\<rparr>"

definition other_record :: visit_record where
  "other_record = \<lparr>rec_url = ''https://other.example'', rec_title = ''other'',
                    rec_visit_time = ''2024-11-03T01:20:00'',
                    rec_visit_time_display = ''2024-11-03 01:20:00'', rec_profile = ''profile7''\<rparr>"

section \<open>Properties\<close>

subsection \<open>Floats: values that need no rounding\<close>

lemma pow2_powi: "pow2 k = 2 powi k"
proof (cases "0 \<le> k")
  case True
  then show ?thesis by (simp add: pow2_def power_int_def)
next
  case False
  have "inverse (2::rat) ^ nat (- k) = 1 / 2 ^ nat (- k)"
    by (simp only: inverse_eq_divide power_one_over)
  then show ?thesis using False by (simp only: pow2_def power_int_def if_False)
qed

lemma pow2_pos: "0 < pow2 k"
  by (simp add: pow2_powi)

lemma pow2_add: "pow2 (a + b) = pow2 a * pow2 b"
  by (simp add: pow2_powi power_int_add)

lemma pow2_mono: "a \<le> b \<Longrightarrow> pow2 a \<le> pow2 b"
  by (simp add: pow2_powi power_int_increasing)

lemma pow2_less_cancel: "pow2 a < pow2 b \<Longrightarrow> a < b"
  using pow2_mono[of b a] by (cases "a < b") auto

lemma pow2_nat: "pow2 (int j) = 2 ^ j"
  by (simp add: pow2_def)

lemma round_half_even_of_int: "round_half_even (of_int i) = i"
  by (simp add: round_half_even_def)

lemma float_exponent_le:
  assumes "x \<noteq> 0"
  shows "pow2 (float_exponent x) \<le> \<bar>x\<bar>"
proof -
  obtain a b where q: "quotient_of \<bar>x\<bar> = (a, b)" by (cases "quotient_of \<bar>x\<bar>")
  have b: "0 < b" using q by (rule quotient_of_denom_pos)
  have x: "\<bar>x\<bar> = of_int a / of_int b" using q by (rule quotient_of_div)
  have a: "0 < a"
  proof -
    have "0 < \<bar>x\<bar>" using assms by simp
    then have "0 < rat_of_int a / rat_of_int b" using x by simp
    then show ?thesis using b by (simp add: zero_less_divide_iff)
  qed
  define n where "n = bitlen a - bitlen b"
  have la: "2 ^ nat (bitlen a - 1) \<le> a" using bitlen_bounds[OF a] by simp
  have lb: "b \<le> 2 ^ nat (bitlen b)" using bitlen_bounds[OF b] by simp
  have la1: "1 \<le> bitlen a" using a bitlen_eq_zero_iff[of a] bitlen_nonneg[of a] by linarith
  have lb0: "0 \<le> bitlen b" by (rule bitlen_nonneg)
  have "pow2 (n - 1) \<le> \<bar>x\<bar>"
  proof -
    have "pow2 (n - 1) * pow2 (bitlen b) = pow2 (bitlen a - 1)"
      by (simp add: pow2_add[symmetric] n_def)
    also have "\<dots> = rat_of_int (2 ^ nat (bitlen a - 1))"
      using la1 by (simp add: pow2_def)
    also have "\<dots> \<le> rat_of_int a" using la by (simp only: of_int_le_iff)
    finally have 1: "pow2 (n - 1) * pow2 (bitlen b) \<le> rat_of_int a" .
    have "rat_of_int b \<le> rat_of_int (2 ^ nat (bitlen b))" using lb by (simp only: of_int_le_iff)
    also have "\<dots> = pow2 (bitlen b)" using lb0 by (simp add: pow2_def)
    finally have 2: "rat_of_int b \<le> pow2 (bitlen b)" .
    have "pow2 (n - 1) * rat_of_int b \<le> pow2 (n - 1) * pow2 (bitlen b)"
      using 2 pow2_pos[of "n - 1"] by (simp add: mult_left_mono)
    then have "pow2 (n - 1) * rat_of_int b \<le> rat_of_int a" using 1 by simp
    then have "pow2 (n - 1) \<le> rat_of_int a / rat_of_int b"
      using b by (simp add: pos_le_divide_eq)
    then show ?thesis using x by simp
  qed
  then show ?thesis
    using q by (simp add: float_exponent_def n_def Let_def)
qed

text \<open>A number with at most 53 significant bits is a float: rounding leaves it alone.\<close>

lemma fl_exact:
  assumes k: "\<bar>k\<bar> < 2 ^ 53"
  shows "fl (of_int k * 2 ^ j) = of_int k * 2 ^ j"
proof (cases "k = 0")
  case True
  then show ?thesis by (simp add: fl_def)
next
  case False
  define x :: rat where "x = of_int k * 2 ^ j"
  have x0: "x \<noteq> 0" using False by (simp add: x_def)
  define e where "e = float_exponent x"
  define m where "m = max (e - 52) (- 1074)"
  have "rat_of_int \<bar>k\<bar> < rat_of_int (2 ^ 53)" using k by (simp only: of_int_less_iff)
  then have kk: "rat_of_int \<bar>k\<bar> * 2 ^ j < rat_of_int (2 ^ 53) * 2 ^ j"
    by (rule mult_strict_right_mono) simp
  have "pow2 e \<le> \<bar>x\<bar>" unfolding e_def using x0 by (rule float_exponent_le)
  also have "\<bar>x\<bar> = rat_of_int \<bar>k\<bar> * 2 ^ j" by (simp add: x_def abs_mult)
  also note kk
  also have "rat_of_int (2 ^ 53) * 2 ^ j = pow2 (53 + int j)"
    unfolding pow2_add pow2_nat by (simp add: pow2_def)
  finally have "e < 53 + int j" by (rule pow2_less_cancel)
  then have mj: "m \<le> int j" by (simp add: m_def)
  define d where "d = nat (int j - m)"
  have jd: "int j = m + int d" using mj by (simp add: d_def)
  have "pow2 (int j) = pow2 m * pow2 (int d)" by (simp only: jd pow2_add)
  then have pj: "(2::rat) ^ j = pow2 m * 2 ^ d" by (simp only: pow2_nat)
  have "x / pow2 m = of_int (k * 2 ^ d)"
    using pow2_pos[of m] by (simp add: x_def pj)
  then have "round_half_even (x / pow2 m) = k * 2 ^ d"
    by (simp only: round_half_even_of_int)
  then have "fl x = of_int (k * 2 ^ d) * pow2 m"
    using x0 by (simp add: fl_def e_def m_def Let_def)
  also have "\<dots> = x" by (simp add: x_def pj)
  finally show ?thesis by (simp add: x_def)
qed

lemma fl_of_int: "\<bar>n\<bar> < 2 ^ 53 \<Longrightarrow> fl (of_int n) = of_int n"
  using fl_exact[of n 0] by simp

lemma fl_micros:
  assumes "\<bar>n\<bar> < 500000000000"
  shows "fl (of_int n * 1000000) = of_int n * 1000000"
proof -
  have "\<bar>n * 15625\<bar> < 2 ^ 53" using assms by (simp add: abs_mult)
  from fl_exact[OF this, of 6] show ?thesis by (simp add: mult.commute)
qed

subsection \<open>The codec on whole seconds\<close>

lemma py_int_of_float_of_int: "py_int_of_float (of_int i) = i"
  by (simp add: py_int_of_float_def)

lemma timestamp_to_timeval_of_int: "timestamp_to_timeval (of_int u) = (u, 0)"
  by (simp add: timestamp_to_timeval_def py_int_of_float_of_int fl_def round_half_even_def)

lemma py_fromtimestamp_of_int:
  "py_fromtimestamp tz (of_int u) = datetime_from_timet_and_us tz u 0"
  by (simp add: py_fromtimestamp_def timestamp_to_timeval_of_int)

lemma not_float_overflow_of_int: "\<bar>n\<bar> < 2 ^ 53 \<Longrightarrow> \<not> float_overflow (of_int n)"
proof -
  assume "\<bar>n\<bar> < 2 ^ 53"
  then have "rat_of_int \<bar>n\<bar> < rat_of_int (2 ^ 53)" by (simp only: of_int_less_iff)
  also have "\<dots> \<le> 2 ^ 1024" by simp
  finally show ?thesis by (simp add: float_overflow_def)
qed

lemma chrome_time_to_datetime_seconds:
  assumes "\<bar>n\<bar> < 500000000000"
  shows "chrome_time_to_datetime tz (n * 1000000) =
         datetime_from_timet_and_us tz (n - CHROME_EPOCH_OFFSET) 0"
proof -
  have n: "\<bar>n\<bar> < 2 ^ 53" using assms by simp
  have q: "fl (of_int (n * 1000000) / 1000000) = of_int n"
    using fl_of_int[OF n] by simp
  have "\<bar>n - CHROME_EPOCH_OFFSET\<bar> < 2 ^ 53"
    using assms by (simp add: CHROME_EPOCH_OFFSET_def)
  from fl_of_int[OF this]
  have d: "fl (rat_of_int n - rat_of_int CHROME_EPOCH_OFFSET) = of_int (n - CHROME_EPOCH_OFFSET)"
    by simp
  show ?thesis
    unfolding chrome_time_to_datetime_def q Let_def d py_fromtimestamp_of_int
    using not_float_overflow_of_int[OF n] by simp
qed

lemma py_timestamp_seconds:
  assumes "local_to_seconds tz (utc_to_seconds dt) = Inr u" and "microsecond dt = 0"
    and "\<bar>u\<bar> < 2 ^ 53"
  shows "py_timestamp tz dt = Inr (of_int u)"
  using assms fl_of_int[of u] by (simp add: py_timestamp_def fl_def[of 0])

lemma datetime_to_chrome_time_seconds:
  assumes ts: "py_timestamp tz dt = Inr (of_int u)" and u: "\<bar>u\<bar> < 400000000000"
  shows "datetime_to_chrome_time tz dt = Inr ((u + CHROME_EPOCH_OFFSET) * 1000000)"
proof -
  have "\<bar>u + CHROME_EPOCH_OFFSET\<bar> < 2 ^ 53" using u by (simp add: CHROME_EPOCH_OFFSET_def)
  from fl_of_int[OF this]
  have a: "fl (rat_of_int u + rat_of_int CHROME_EPOCH_OFFSET) = of_int (u + CHROME_EPOCH_OFFSET)"
    by simp
  have "\<bar>u + CHROME_EPOCH_OFFSET\<bar> < 500000000000" using u by (simp add: CHROME_EPOCH_OFFSET_def)
  from fl_micros[OF this]
  have b: "fl (rat_of_int (u + CHROME_EPOCH_OFFSET) * 1000000) =
           of_int ((u + CHROME_EPOCH_OFFSET) * 1000000)"
    by simp
  show ?thesis
    unfolding datetime_to_chrome_time_def ts sum.case a b py_int_of_float_of_int ..
qed

subsection \<open>Solving for the instant of a local time\<close>

lemma local_Inr: "local tz u = Inr w \<Longrightarrow> w = u + tz u \<and> MIN_WALL \<le> w \<and> w \<le> MAX_WALL"
  by (auto simp: local_def Let_def split: if_splits)

lemma local_to_seconds_rest_local:
  assumes "local tz u1 = Inr t1" and "local_to_seconds_rest tz t u1 t1 b = Inr u"
  shows "\<exists>w. local tz u = Inr w"
  using assms
  by (auto simp: local_to_seconds_rest_def Let_def max_def split: sum.splits if_splits)

text \<open>Whatever instant \<open>local_to_seconds\<close> returns, the zone can break it down.\<close>

lemma local_to_seconds_local:
  assumes "local_to_seconds tz t = Inr u"
  shows "\<exists>w. local tz u = Inr w"
proof -
  from assms obtain lt where lt: "local tz t = Inr lt"
    by (auto simp: local_to_seconds_def split: sum.splits)
  define u1 where "u1 = t - (lt - t)"
  have step1: "local_to_seconds tz t =
      (case local tz u1 of Inl e \<Rightarrow> Inl e
       | Inr t1 \<Rightarrow>
          if t1 = t then
            (case local tz (u1 - max_fold_seconds) of Inl e \<Rightarrow> Inl e
             | Inr lt2 \<Rightarrow>
                 if lt - t = lt2 - (u1 - max_fold_seconds) then Inr u1
                 else local_to_seconds_rest tz t u1 t1 (lt2 - (u1 - max_fold_seconds)))
          else local_to_seconds_rest tz t u1 t1 (t1 - u1))"
    unfolding local_to_seconds_def lt sum.case Let_def u1_def[symmetric] ..
  from assms obtain t1 where t1: "local tz u1 = Inr t1"
    unfolding step1 by (cases "local tz u1") auto
  show ?thesis
  proof (cases "t1 = t")
    case False
    with assms have "local_to_seconds_rest tz t u1 t1 (t1 - u1) = Inr u"
      unfolding step1 t1 sum.case by (simp only: if_False)
    with t1 show ?thesis by (rule local_to_seconds_rest_local)
  next
    case True
    with assms have step2:
      "(case local tz (u1 - max_fold_seconds) of Inl e \<Rightarrow> Inl e
        | Inr lt2 \<Rightarrow>
            if lt - t = lt2 - (u1 - max_fold_seconds) then Inr u1
            else local_to_seconds_rest tz t u1 t1 (lt2 - (u1 - max_fold_seconds))) = Inr u"
      unfolding step1 t1 sum.case by (simp only: simp_thms if_True)
    then obtain lt2 where lt2: "local tz (u1 - max_fold_seconds) = Inr lt2"
      by (cases "local tz (u1 - max_fold_seconds)") auto
    show ?thesis
    proof (cases "lt - t = lt2 - (u1 - max_fold_seconds)")
      case True
      with step2 have "u = u1"
        unfolding lt2 sum.case by (simp only: simp_thms if_True sum.inject)
      with t1 show ?thesis by blast
    next
      case False
      with step2
      have "local_to_seconds_rest tz t u1 t1 (lt2 - (u1 - max_fold_seconds)) = Inr u"
        unfolding lt2 sum.case by (simp only: simp_thms if_False)
      with t1 show ?thesis by (rule local_to_seconds_rest_local)
    qed
  qed
qed

lemma local_to_seconds_bound:
  assumes "local_to_seconds tz t = Inr u" and "\<forall>v. \<bar>tz v\<bar> < 86400"
  shows "\<bar>u\<bar> < 300000000000"
proof -
  from local_to_seconds_local[OF assms(1)] obtain w where "local tz u = Inr w" ..
  from local_Inr[OF this] assms(2)[rule_format, of u] show ?thesis
    by (auto simp: MIN_WALL_def MAX_WALL_def)
qed

subsection \<open>Concrete conversions in the Pacific zone\<close>

lemmas calendar_defs =
  utc_to_seconds_def ymd2ord_def days_before_year_def days_before_month_def is_leap_def
  DAYS_IN_MONTH_def seconds_to_datetime_def ord2ymd_def

lemmas zone_defs =
  local_to_seconds_def local_to_seconds_rest_def datetime_from_timet_and_us_def local_def
  int64_def MIN_WALL_def MAX_WALL_def max_fold_seconds_def Let_def

lemma gap_time_timestamp: "py_timestamp pacific_zone gap_time = Inr 1710066600"
proof -
  have "utc_to_seconds gap_time = 1710037800"
    by (simp add: gap_time_def calendar_defs)
  moreover have "local_to_seconds pacific_zone 1710037800 = Inr 1710066600"
    by (simp add: zone_defs pacific_zone_def)
  ultimately show ?thesis
    using py_timestamp_seconds[of pacific_zone gap_time 1710066600]
    by (simp add: gap_time_def)
qed

lemma gap_time_back:
  "datetime_from_timet_and_us pacific_zone 1710066600 0 = Inr (gap_time\<lparr>hour := 3\<rparr>)"
  by (simp add: zone_defs pacific_zone_def calendar_defs gap_time_def)

lemma summer_time_timestamp: "py_timestamp pacific_zone summer_time = Inr 1718487045"
proof -
  have "utc_to_seconds summer_time = 1718461845"
    by (simp add: summer_time_def calendar_defs)
  moreover have "local_to_seconds pacific_zone 1718461845 = Inr 1718487045"
    by (simp add: zone_defs pacific_zone_def)
  ultimately show ?thesis
    using py_timestamp_seconds[of pacific_zone summer_time 1718487045]
    by (simp add: summer_time_def)
qed

lemma summer_time_back:
  "py_fromtimestamp pacific_zone 1718487045 = Inr summer_time"
proof -
  have "datetime_from_timet_and_us pacific_zone 1718487045 0 = Inr summer_time"
    by (simp add: zone_defs pacific_zone_def calendar_defs summer_time_def)
  then show ?thesis using py_fromtimestamp_of_int[of pacific_zone 1718487045] by simp
qed

lemma pacific_zone_bounded: "\<forall>u. \<bar>pacific_zone u\<bar> < 86400"
  by (simp add: pacific_zone_def)

section \<open>Claims\<close>

text \<open>
  C2 (as amended). In a zone whose UTC offsets stay within a day, for every wall-clock
  timestamp \<open>t\<close> with zero microseconds for which the standard library's own local-time
  round trip holds (\<^verbatim>\<open>datetime.fromtimestamp(t.timestamp()) == t\<close>: \<open>t\<close> is in the
  convertible range and is not skipped by a transition of the zone),
  \<^verbatim>\<open>datetime_to_chrome_time\<close> returns a Chrome time and \<^verbatim>\<open>chrome_time_to_datetime\<close> maps it
  back to \<open>t\<close>, all fields equal: scaling by a million and back is exact in floats.
\<close>

theorem chrome_roundtrip_whole_seconds:
  assumes zone: "\<forall>u. \<bar>tz u\<bar> < 86400"
    and whole: "microsecond t = 0"
    and ts: "py_timestamp tz t = Inr ts"
    and rt: "py_fromtimestamp tz ts = Inr t"
  shows "\<exists>c. datetime_to_chrome_time tz t = Inr c \<and> chrome_time_to_datetime tz c = Inr t"
proof -
  from ts obtain u where u: "local_to_seconds tz (utc_to_seconds t) = Inr u"
    by (auto simp: py_timestamp_def split: sum.splits)
  have bound: "\<bar>u\<bar> < 300000000000" using u zone by (rule local_to_seconds_bound)
  then have ts': "py_timestamp tz t = Inr (of_int u)"
    using py_timestamp_seconds[OF u whole] by simp
  with ts have tsu: "ts = of_int u" by simp
  have c: "datetime_to_chrome_time tz t = Inr ((u + CHROME_EPOCH_OFFSET) * 1000000)"
    using ts' bound by (intro datetime_to_chrome_time_seconds) simp_all
  have "\<bar>u + CHROME_EPOCH_OFFSET\<bar> < 500000000000"
    using bound by (simp add: CHROME_EPOCH_OFFSET_def)
  from chrome_time_to_datetime_seconds[OF this, of tz]
  have "chrome_time_to_datetime tz ((u + CHROME_EPOCH_OFFSET) * 1000000) = Inr t"
    using rt by (simp add: tsu py_fromtimestamp_of_int)
  with c show ?thesis by blast
qed

theorem chrome_roundtrip_whole_seconds_witness:
  "\<exists>c. datetime_to_chrome_time pacific_zone summer_time = Inr c \<and>
       chrome_time_to_datetime pacific_zone c = Inr summer_time"
proof -
  have whole: "microsecond summer_time = 0" by (simp add: summer_time_def)
  show ?thesis
    by (rule chrome_roundtrip_whole_seconds
          [OF pacific_zone_bounded whole summer_time_timestamp summer_time_back])
qed

text \<open>
  C2 as stated fails: 2024-03-10T02:30:00 is a whole-second wall-clock timestamp, and in
  the Pacific zone the round trip returns 03:30:00 of that day.
\<close>

theorem chrome_roundtrip_gap_counterexample:
  "microsecond gap_time = 0 \<and>
   datetime_to_chrome_time pacific_zone gap_time = Inr 13354540200000000 \<and>
   chrome_time_to_datetime pacific_zone 13354540200000000 = Inr (gap_time\<lparr>hour := 3\<rparr>) \<and>
   gap_time\<lparr>hour := 3\<rparr> \<noteq> gap_time"
proof -
  have a: "datetime_to_chrome_time pacific_zone gap_time = Inr 13354540200000000"
    using datetime_to_chrome_time_seconds[of pacific_zone gap_time 1710066600]
      gap_time_timestamp
    by (simp add: CHROME_EPOCH_OFFSET_def)
  have b: "chrome_time_to_datetime pacific_zone 13354540200000000 =
           Inr (gap_time\<lparr>hour := 3\<rparr>)"
    using chrome_time_to_datetime_seconds[of 13354540200 pacific_zone] gap_time_back
    by (simp add: CHROME_EPOCH_OFFSET_def)
  show ?thesis using a b by (simp add: gap_time_def)
qed

subsection \<open>Evaluating the example data\<close>

lemma zero_pad_2: "zero_pad 2 n = [digit_char (n div 10 mod 10), digit_char (n mod 10)]"
  by (simp add: eval_nat_numeral)

lemma zero_pad_4:
  "zero_pad 4 n = [digit_char (n div 10 div 10 div 10 mod 10), digit_char (n div 10 div 10 mod 10),
                   digit_char (n div 10 mod 10), digit_char (n mod 10)]"
  by (simp add: eval_nat_numeral)

lemma zero_pad_6:
  "zero_pad 6 n = [digit_char (n div 10 div 10 div 10 div 10 div 10 mod 10),
                   digit_char (n div 10 div 10 div 10 div 10 mod 10),
                   digit_char (n div 10 div 10 div 10 mod 10), digit_char (n div 10 div 10 mod 10),
                   digit_char (n div 10 mod 10), digit_char (n mod 10)]"
  by (simp add: eval_nat_numeral)

lemmas format_defs = isoformat_def strftime_def zero_pad_2 zero_pad_4 zero_pad_6 digit_char_def

lemmas store_defs =
  joined_def select_rows_def sort_desc_def limit_offset_def eval_where_def
  execute_count_def execute_rows_def query_profile_count_def query_profile_rows_def
  get_history_db_path_def active_profiles_of_def TEMP_DIR_def int64_def

lemmas example_defs = example_fs_def example_db_a_def example_db_b_def example_urls_def

lemma utc_2024_01_01_10: "chrome_time_to_datetime utc_zone 13348576800000000 =
    Inr \<lparr>year = 2024, month = 1, day = 1, hour = 10, minute = 0, second = 0, microsecond = 0\<rparr>"
  using chrome_time_to_datetime_seconds[of 13348576800 utc_zone]
  by (simp add: CHROME_EPOCH_OFFSET_def zone_defs utc_zone_def calendar_defs)

lemma utc_2024_02_01_14: "chrome_time_to_datetime utc_zone 13351269600000000 =
    Inr \<lparr>year = 2024, month = 2, day = 1, hour = 14, minute = 0, second = 0, microsecond = 0\<rparr>"
  using chrome_time_to_datetime_seconds[of 13351269600 utc_zone]
  by (simp add: CHROME_EPOCH_OFFSET_def zone_defs utc_zone_def calendar_defs)

lemma utc_2024_01_15_12: "chrome_time_to_datetime utc_zone 13349793600000000 =
    Inr \<lparr>year = 2024, month = 1, day = 15, hour = 12, minute = 0, second = 0, microsecond = 0\<rparr>"
  using chrome_time_to_datetime_seconds[of 13349793600 utc_zone]
  by (simp add: CHROME_EPOCH_OFFSET_def zone_defs utc_zone_def calendar_defs)

lemma utc_2024_02_15_16: "chrome_time_to_datetime utc_zone 13352486400000000 =
    Inr \<lparr>year = 2024, month = 2, day = 15, hour = 16, minute = 0, second = 0, microsecond = 0\<rparr>"
  using chrome_time_to_datetime_seconds[of 13352486400 utc_zone]
  by (simp add: CHROME_EPOCH_OFFSET_def zone_defs utc_zone_def calendar_defs)

lemmas example_times =
  utc_2024_01_01_10 utc_2024_02_01_14 utc_2024_01_15_12 utc_2024_02_15_16

lemma example_search: "search utc_zone example_fs [(''profile'', ''default'')] = Inr example_response"
  by (simp add: search_def args_get_def strip_def parse_date_arg_def PER_PAGE_def
        search_history_def build_where_clause_def store_defs example_defs example_times
        format_defs example_response_def)

subsection \<open>Sizes of pages\<close>

lemma rows_to_results_length:
  "rows_to_results tz prof rows = Inr results \<Longrightarrow> length results = length rows"
  by (induction rows arbitrary: results) (auto split: sum.splits)

lemma limit_offset_length:
  "0 \<le> limit \<Longrightarrow> length (limit_offset rows limit offset) \<le> nat limit"
  by (simp add: limit_offset_def Let_def)

lemma query_profile_rows_length:
  "0 \<le> limit \<Longrightarrow> length (query_profile_rows tz fs db_path w limit offset prof) \<le> nat limit"
  using limit_offset_length[of limit]
  by (auto simp: query_profile_rows_def execute_rows_def rows_to_results_length
           split: option.splits snapshot.splits sum.splits if_splits)

lemma slice_index_step: "0 \<le> d \<Longrightarrow> slice_index n (i + d) \<le> slice_index n i + nat d"
  by (auto simp: slice_index_def)

lemma py_slice_length: "0 \<le> d \<Longrightarrow> length (py_slice xs i (i + d)) \<le> nat d"
  using slice_index_step[of d "length xs" i]
  by (simp add: py_slice_def Let_def)

lemma search_history_length:
  assumes "search_history tz fs keyword start_date end_date profiles page per_page =
           Inr (results, n)"
    and "0 \<le> per_page"
  shows "length results \<le> nat per_page"
  using assms query_profile_rows_length[of per_page] py_slice_length[of per_page]
  by (auto simp: search_history_def Let_def split: sum.splits if_splits prod.splits)

lemma ceil_div: "0 < (b::int) \<Longrightarrow> (a + b - 1) div b = \<lceil>rat_of_int a / rat_of_int b\<rceil>"
proof -
  assume b: "0 < b"
  define r where "r = b - 1 - (- a) mod b"
  define k where "k = - ((- a) div b)"
  have eq: "a + b - 1 = r + k * b"
    using div_mult_mod_eq[of "-a" b] by (simp add: algebra_simps r_def k_def)
  have r: "0 \<le> r" "r < b"
    using pos_mod_bound[OF b, of "-a"] pos_mod_sign[OF b, of "-a"] by (auto simp: r_def)
  have "(r + k * b) div b = k + r div b"
    using b by simp
  also have "r div b = 0" using r by (simp add: div_pos_pos_trivial)
  finally have "(a + b - 1) div b = k" using eq by simp
  moreover have "\<lceil>rat_of_int a / rat_of_int b\<rceil> = k"
    by (simp add: ceiling_divide_eq_div k_def)
  ultimately show ?thesis by simp
qed

text \<open>
  C3. Whenever the route \<^verbatim>\<open>/search\<close> answers a request, the page it returns has
  \<open>total_pages = \<lceil>total_count / per_page\<rceil>\<close> and between 0 and \<open>per_page\<close> records.
\<close>

theorem search_page_invariants:
  assumes "search tz fs args = Inr r"
  shows "resp_total_pages r =
           \<lceil>rat_of_int (resp_total_count r) / rat_of_int (resp_per_page r)\<rceil> \<and>
         0 \<le> int (length (resp_results r)) \<and>
         int (length (resp_results r)) \<le> resp_per_page r"
proof -
  from assms obtain pg kw sd ed ps results n where
    sh: "search_history tz fs kw sd ed ps pg PER_PAGE = Inr (results, n)"
    and r: "r = \<lparr>resp_results = results, resp_total_count = n, resp_page = pg,
                 resp_per_page = PER_PAGE, resp_total_pages = (n + PER_PAGE - 1) div PER_PAGE\<rparr>"
    by (auto simp: search_def Let_def split: sum.splits prod.splits)
  have pos: "0 < PER_PAGE" by (simp add: PER_PAGE_def)
  have "length results \<le> nat PER_PAGE"
    using search_history_length[OF sh] pos by simp
  then have "int (length results) \<le> PER_PAGE" using pos by simp
  then show ?thesis using r ceil_div[OF pos, of n] by simp
qed

theorem search_page_invariants_witness:
  "resp_total_pages example_response =
     \<lceil>rat_of_int (resp_total_count example_response) /
      rat_of_int (resp_per_page example_response)\<rceil> \<and>
   0 \<le> int (length (resp_results example_response)) \<and>
   int (length (resp_results example_response)) \<le> resp_per_page example_response"
  by (rule search_page_invariants[OF example_search])

text \<open>
  C10. The empty keyword produces no keyword clause, so \<^verbatim>\<open>search_history\<close> with
  \<^verbatim>\<open>keyword=""\<close> returns what it returns with \<^verbatim>\<open>keyword=None\<close>, for every store, zone and
  other filter setting.
\<close>

theorem empty_keyword_is_no_keyword:
  "build_where_clause tz (Some []) start_date end_date =
     build_where_clause tz None start_date end_date \<and>
   search_history tz fs (Some []) start_date end_date profiles page per_page =
     search_history tz fs None start_date end_date profiles page per_page"
  by (simp add: search_history_def build_where_clause_def)

theorem empty_keyword_is_no_keyword_witness:
  "search_history utc_zone example_fs (Some []) None None (Some [''default'']) 1 50 =
   search_history utc_zone example_fs None None None (Some [''default'']) 1 50"
  by (rule conjunct2[OF empty_keyword_is_no_keyword])

subsection \<open>The coordinator in terms of the resolved profiles\<close>









subsection \<open>\<^verbatim>\<open>LIKE\<close> with a pattern \<^verbatim>\<open>%keyword%\<close>\<close>

lemma like_match_percent: "like_match ''%'' s"
  by (induction s) auto

lemma like_match_wildcard_free:
  assumes "CHR ''%'' \<notin> set p" and "CHR ''_'' \<notin> set p"
  shows "like_match (p @ ''%'') s \<longleftrightarrow> ci_prefix p s"
  using assms
proof (induction p arbitrary: s)
  case Nil
  then show ?case using like_match_percent by simp
next
  case (Cons a p)
  then show ?case by (cases s) auto
qed

lemma like_match_contains:
  assumes "CHR ''%'' \<notin> set p" and "CHR ''_'' \<notin> set p"
  shows "like_match (''%'' @ p @ ''%'') s \<longleftrightarrow> ci_substring p s"
proof (induction s)
  case Nil
  then show ?case using like_match_wildcard_free[OF assms, of "[]"] by simp
next
  case (Cons c cs)
  then show ?case using like_match_wildcard_free[OF assms, of "c # cs"] by simp
qed

text \<open>\<open>ci_substring\<close> is containment as a substring once both texts are lower-cased.\<close>

lemma ci_prefix_iff: "ci_prefix k s \<longleftrightarrow> (\<exists>post. map ascii_lower s = map ascii_lower k @ post)"
proof (induction k s rule: ci_prefix.induct)
  case (1 s)
  then show ?case by simp
next
  case (2 k ks)
  then show ?case by simp
next
  case (3 k ks c cs)
  then show ?case by auto
qed

lemma ci_substring_iff:
  "ci_substring k s \<longleftrightarrow> (\<exists>pre post. map ascii_lower s = pre @ map ascii_lower k @ post)"
proof (induction s)
  case Nil
  then show ?case by (cases k) auto
next
  case (Cons c cs)
  show ?case
  proof
    assume "ci_substring k (c # cs)"
    then consider "ci_prefix k (c # cs)" | "ci_substring k cs" by auto
    then show "\<exists>pre post. map ascii_lower (c # cs) = pre @ map ascii_lower k @ post"
    proof cases
      case 1
      then obtain post where "map ascii_lower (c # cs) = map ascii_lower k @ post"
        unfolding ci_prefix_iff by blast
      then have "map ascii_lower (c # cs) = [] @ map ascii_lower k @ post" by simp
      then show ?thesis by blast
    next
      case 2
      then obtain pre post where "map ascii_lower cs = pre @ map ascii_lower k @ post"
        using Cons.IH by blast
      then have "map ascii_lower (c # cs) = (ascii_lower c # pre) @ map ascii_lower k @ post"
        by simp
      then show ?thesis by blast
    qed
  next
    assume "\<exists>pre post. map ascii_lower (c # cs) = pre @ map ascii_lower k @ post"
    then obtain pre post where eq: "map ascii_lower (c # cs) = pre @ map ascii_lower k @ post"
      by blast
    show "ci_substring k (c # cs)"
    proof (cases pre)
      case Nil
      with eq have "ci_prefix k (c # cs)" unfolding ci_prefix_iff by auto
      then show ?thesis by simp
    next
      case (Cons a pre')
      with eq have "map ascii_lower cs = pre' @ map ascii_lower k @ post" by simp
      then have "ci_substring k cs" using Cons.IH by blast
      then show ?thesis by simp
    qed
  qed
qed

text \<open>A pattern without NUL is read to its end, and \<^verbatim>\<open>%keyword%\<close> is two bytes longer
  than the keyword.\<close>

lemma c_string_id: "CHR 0x00 \<notin> set s \<Longrightarrow> c_string s = s"
  unfolding c_string_def by (induction s) auto

lemma utf8_length_append: "utf8_length (a @ b) = utf8_length a + utf8_length b"
  by (simp add: utf8_length_def)

lemma like_keyword:
  assumes "CHR ''%'' \<notin> set k" and "CHR ''_'' \<notin> set k" and "CHR 0x00 \<notin> set k"
    and "utf8_length k + 2 \<le> 50000"
  shows "like (''%'' @ k @ ''%'') s = Inr (ci_substring k (c_string s))"
proof -
  have len: "utf8_length (''%'' @ k @ ''%'') = utf8_length k + 2"
    by (simp add: utf8_length_def)
  have "CHR 0x00 \<notin> set (''%'' @ k @ ''%'')" using assms(3) by simp
  then have c: "c_string (''%'' @ k @ ''%'') = ''%'' @ k @ ''%''" by (rule c_string_id)
  show ?thesis
    unfolding like_def len c using assms(4) like_match_contains[OF assms(1,2)] by simp
qed

text \<open>What SQLite does with a NUL and with an over-long pattern.\<close>

lemma like_reads_to_nul:
  "like [CHR ''%'', CHR 0x00, CHR ''q'', CHR ''%''] ''zzz'' = Inr True \<and>
   like ''%cd%'' [CHR ''a'', CHR ''b'', CHR 0x00, CHR ''c'', CHR ''d''] = Inr False"
  by (simp add: like_def utf8_length_def c_string_def ascii_lower_def)

lemma like_too_complex: "like (''%'' @ replicate 49999 (CHR ''a'') @ ''%'') s = Inl SqliteError"
  by (simp add: like_def utf8_length_def)

text \<open>The clauses of a WHERE clause one after the other.\<close>

lemma eval_all_append:
  "eval_all (cs @ ds) row =
     (case eval_all cs row of
        Inl e \<Rightarrow> Inl e
      | Inr b \<Rightarrow> if b then eval_all ds row else Inr False)"
  by (induction cs) (auto split: sum.splits)

lemma eval_all_on_visit: "list_all on_visit cs \<Longrightarrow> \<exists>b. eval_all cs row = Inr b"
proof (induction cs)
  case Nil
  show ?case by (rule exI[of _ True]) simp
next
  case (Cons c cs)
  then obtain b where b: "eval_all cs row = Inr b" by auto
  from Cons.prems obtain t where "c = VisitTimeGe t \<or> c = VisitTimeLe t"
    by (cases c) auto
  then have "\<exists>b'. eval_clause c row = Inr b'" by (cases row) auto
  then obtain b' where "eval_clause c row = Inr b'" by blast
  then show ?case using b by (cases b') auto
qed

lemma eval_all_True:
  "eval_all cs row = Inr True \<Longrightarrow> c \<in> set cs \<Longrightarrow> eval_clause c row = Inr True"
  by (induction cs) (auto split: sum.splits if_splits)

lemma where_rows_Inr:
  "where_rows w rows = Inr rs \<Longrightarrow> rs = filter (\<lambda>row. eval_where w row = Inr True) rows"
  by (induction rows arbitrary: rs) (auto split: sum.splits)

text \<open>
  An over-long pattern selects nothing: the statement raises at the first visit that
  gets to the keyword condition, or it finds no row. Either way the executors return
  \<^verbatim>\<open>0\<close> and \<^verbatim>\<open>[]\<close>.
\<close>

lemma limit_offset_Nil: "limit_offset [] limit offset = []"
  by (simp add: limit_offset_def)

lemma too_complex_selects_nothing:
  assumes "50000 < utf8_length p" and "fs db_path = Some (Database db)"
  shows "query_profile_count fs db_path (UrlOrTitleLike p p2 # rest) = 0 \<and>
         query_profile_rows tz fs db_path (UrlOrTitleLike p p2 # rest) limit offset prof = []"
proof -
  let ?w = "UrlOrTitleLike p p2 # rest"
  have no: "eval_where ?w row \<noteq> Inr True" for row
  proof
    assume t: "eval_where ?w row = Inr True"
    have "UrlOrTitleLike p p2 \<in> set (filter on_visit ?w @ filter (\<lambda>c. \<not> on_visit c) ?w)"
      by simp
    with t have "eval_clause (UrlOrTitleLike p p2) row = Inr True"
      unfolding eval_where_def by (rule eval_all_True)
    then show False using assms(1) by (cases row) (simp add: like_def)
  qed
  have empty: "rs = []" if "where_rows ?w rows = Inr rs" for rows rs
    using where_rows_Inr[OF that] no by simp
  have 1: "query_profile_count fs db_path ?w = 0"
    using assms(2) empty
    by (auto simp: query_profile_count_def execute_count_def split: sum.splits)
  have "(\<exists>e. select_rows db ?w = Inl e) \<or> select_rows db ?w = Inr []"
  proof (cases "where_rows ?w (joined db)")
    case (Inl e)
    then show ?thesis by (simp add: select_rows_def)
  next
    case (Inr rs)
    then have "rs = []" by (rule empty)
    with Inr show ?thesis by (simp add: select_rows_def sort_desc_def)
  qed
  then have "(\<exists>e. execute_rows fs db_path ?w limit offset = Inl e) \<or>
             execute_rows fs db_path ?w limit offset = Inr []"
    using assms(2) by (auto simp: execute_rows_def limit_offset_Nil)
  then have 2: "query_profile_rows tz fs db_path ?w limit offset prof = []"
    by (auto simp: query_profile_rows_def)
  show ?thesis using 1 2 by simp
qed

lemma build_where_clause_keyword:
  assumes "keyword \<noteq> []"
  shows "build_where_clause tz (Some keyword) start_date end_date =
           (case build_where_clause tz None start_date end_date of
              Inl e \<Rightarrow> Inl e
            | Inr rest \<Rightarrow>
                Inr (UrlOrTitleLike (''%'' @ keyword @ ''%'') (''%'' @ keyword @ ''%'') # rest))"
  using assms
  by (simp add: build_where_clause_def Let_def split: option.splits sum.splits)

lemma build_where_clause_on_visit:
  "build_where_clause tz None start_date end_date = Inr rest \<Longrightarrow> list_all on_visit rest"
  by (auto simp: build_where_clause_def Let_def split: option.splits sum.splits)

text \<open>
  C9 (as amended). For a keyword that is set, contains none of \<^verbatim>\<open>%\<close>, \<^verbatim>\<open>_\<close> and NUL, and
  has at most 49998 bytes in UTF-8, the WHERE clause is the keyword clause followed by
  the clauses of the other filters, and a row satisfies it if and only if it satisfies
  the other clauses and its URL or its (non-NULL) title, read up to its first NUL if it
  has one, contains the keyword as a substring, ASCII letter case ignored; one field is
  enough.
\<close>

theorem keyword_clause_is_substring_match:
  assumes "keyword \<noteq> []" and "CHR ''%'' \<notin> set keyword" and "CHR ''_'' \<notin> set keyword"
    and "CHR 0x00 \<notin> set keyword" and "utf8_length keyword + 2 \<le> 50000"
    and "build_where_clause tz (Some keyword) start_date end_date = Inr w"
  shows "\<exists>rest other. build_where_clause tz None start_date end_date = Inr rest \<and>
           eval_where rest (u, v) = Inr other \<and>
           eval_where w (u, v) =
             Inr (other \<and>
                  (ci_substring keyword (c_string (urls_url u)) \<or>
                   (\<exists>t. urls_title u = Some t \<and> ci_substring keyword (c_string t))))"
proof -
  define L where "L = UrlOrTitleLike (''%'' @ keyword @ ''%'') (''%'' @ keyword @ ''%'')"
  let ?m = "ci_substring keyword (c_string (urls_url u)) \<or>
            (\<exists>t. urls_title u = Some t \<and> ci_substring keyword (c_string t))"
  from assms(1,6) obtain rest where
    rest: "build_where_clause tz None start_date end_date = Inr rest"
    and w: "w = L # rest"
    by (auto simp: build_where_clause_keyword L_def split: sum.splits)
  have onv: "list_all on_visit rest" using rest by (rule build_where_clause_on_visit)
  then have f1: "filter on_visit rest = rest" and f2: "filter (\<lambda>c. \<not> on_visit c) rest = []"
    by (simp_all add: list_all_iff)
  from eval_all_on_visit[OF onv] obtain other where other: "eval_all rest (u, v) = Inr other"
    by blast
  have L: "eval_clause L (u, v) = Inr ?m"
    unfolding L_def using like_keyword[OF assms(2-5)] by (auto split: option.splits)
  have nv: "\<not> on_visit L" by (simp add: L_def)
  have "eval_where rest (u, v) = Inr other"
    by (simp add: eval_where_def f1 f2 other)
  moreover have "eval_where w (u, v) = Inr (other \<and> ?m)"
    unfolding w eval_where_def by (simp add: f1 f2 nv eval_all_append other L)
  ultimately show ?thesis using rest by blast
qed

theorem keyword_clause_is_substring_match_witness:
  "\<exists>rest other. build_where_clause utc_zone None None None = Inr rest \<and>
     eval_where rest (fst python_row, snd python_row) = Inr other \<and>
     eval_where [UrlOrTitleLike ''%PYTHON%'' ''%PYTHON%''] (fst python_row, snd python_row) =
       Inr (other \<and>
            (ci_substring ''PYTHON'' (c_string (urls_url (fst python_row))) \<or>
             (\<exists>t. urls_title (fst python_row) = Some t \<and> ci_substring ''PYTHON'' (c_string t))))"
proof -
  have k: "''PYTHON'' \<noteq> []" "CHR ''%'' \<notin> set ''PYTHON''" "CHR ''_'' \<notin> set ''PYTHON''"
    "CHR 0x00 \<notin> set ''PYTHON''" "utf8_length ''PYTHON'' + 2 \<le> 50000"
    by (simp_all add: utf8_length_def)
  have b: "build_where_clause utc_zone (Some ''PYTHON'') None None =
           Inr [UrlOrTitleLike ''%PYTHON%'' ''%PYTHON%'']"
    by (simp add: build_where_clause_def Let_def)
  show ?thesis by (rule keyword_clause_is_substring_match[OF k b])
qed

text \<open>
  C9 as stated fails: the keyword \<^verbatim>\<open>a_c\<close> is set, the row with URL \<^verbatim>\<open>abc\<close> and no title
  satisfies the keyword clause, and neither field contains \<^verbatim>\<open>a_c\<close>.
\<close>

theorem keyword_wildcard_counterexample:
  "build_where_clause utc_zone (Some ''a_c'') None None =
     Inr [UrlOrTitleLike ''%a_c%'' ''%a_c%''] \<and>
   eval_where [UrlOrTitleLike ''%a_c%'' ''%a_c%''] abc_row = Inr True \<and>
   \<not> ci_substring ''a_c'' (urls_url (fst abc_row)) \<and>
   urls_title (fst abc_row) = None"
  by (simp add: build_where_clause_def Let_def eval_where_def abc_row_def ascii_lower_def
        like_def utf8_length_def c_string_def)

subsection \<open>Date filters\<close>

lemma utc_timestamp:
  assumes "utc_to_seconds dt = u" and "microsecond dt = 0"
    and "MIN_WALL + 86400 \<le> u" and "u \<le> MAX_WALL"
  shows "datetime_to_chrome_time utc_zone dt = Inr ((u + CHROME_EPOCH_OFFSET) * 1000000)"
proof -
  have "local_to_seconds utc_zone u = Inr u"
    using assms(3,4) by (simp add: zone_defs utc_zone_def)
  then have "py_timestamp utc_zone dt = Inr (of_int u)"
    using py_timestamp_seconds[of utc_zone dt u] assms
    by (simp add: MIN_WALL_def MAX_WALL_def)
  then show ?thesis
    using assms(3,4)
    by (intro datetime_to_chrome_time_seconds) (simp_all add: MIN_WALL_def MAX_WALL_def)
qed

text \<open>The end date is cut to its calendar day before it is used: its time of day does
  not matter.\<close>

lemma end_date_time_of_day_ignored:
  "build_where_clause tz keyword start_date
     (Some (ed\<lparr>hour := h, minute := mi, second := s, microsecond := us\<rparr>)) =
   build_where_clause tz keyword start_date (Some ed)"
  by (simp add: build_where_clause_def Let_def split: sum.splits)

text \<open>
  C4, at the failing input. The start date is used as it is, time of day included: with
  \<^verbatim>\<open>start_date = datetime(2024, 2, 1, 15, 0, 0)\<close> (UTC) the predicate is
  \<open>visit_time \<ge> 15:00\<close>, and a visit at 10:00 of that day, which is not before 00:00:00 of
  the start date's calendar day, is rejected.
\<close>

theorem start_date_time_of_day_kept:
  "build_where_clause utc_zone None (Some afternoon) None = Inr [VisitTimeGe 13351273200000000] \<and>
   eval_where [VisitTimeGe 13351273200000000] morning_row = Inr False \<and>
   datetime_to_chrome_time utc_zone (afternoon\<lparr>hour := 0\<rparr>) = Inr 13351219200000000 \<and>
   13351219200000000 \<le> visits_visit_time (snd morning_row)"
proof -
  have a: "datetime_to_chrome_time utc_zone afternoon = Inr 13351273200000000"
    using utc_timestamp[of afternoon 1706799600]
    by (simp add: afternoon_def calendar_defs MIN_WALL_def MAX_WALL_def CHROME_EPOCH_OFFSET_def)
  have b: "datetime_to_chrome_time utc_zone (afternoon\<lparr>hour := 0\<rparr>) = Inr 13351219200000000"
    using utc_timestamp[of "afternoon\<lparr>hour := 0\<rparr>" 1706745600]
    by (simp add: afternoon_def calendar_defs MIN_WALL_def MAX_WALL_def CHROME_EPOCH_OFFSET_def)
  show ?thesis
    using a b by (simp add: build_where_clause_def eval_where_def morning_row_def)
qed

subsection \<open>Request parameters\<close>

text \<open>A date string that does not parse is dropped: the request is answered as if the
  parameter were absent.\<close>

lemma unparsable_date_is_no_filter:
  "date_fromisoformat date_str = Inl e \<Longrightarrow> parse_date_arg date_str = None"
  by (simp add: parse_date_arg_def)

text \<open>
  C5, at the failing input. \<^verbatim>\<open>GET /search?page=abc\<close>: \<^verbatim>\<open>int("abc")\<close> raises ValueError
  outside any \<^verbatim>\<open>try\<close>, and the request fails; no page 1 is substituted. An out-of-range
  page such as \<^verbatim>\<open>page=0\<close> is passed on as it is.
\<close>

theorem unparsable_page_fails:
  "search utc_zone example_fs [(''page'', ''abc'')] = Inl ValueError \<and>
   search utc_zone example_fs [(''profile'', ''default''), (''page'', ''0'')] =
     Inr \<lparr>resp_results = resp_results example_response, resp_total_count = 2, resp_page = 0,
          resp_per_page = 50, resp_total_pages = 1\<rparr>"
proof -
  have a: "py_int_of_str ''abc'' = Inl ValueError"
    by (simp add: py_int_of_str_def is_int_space_def is_digit_def)
  have b: "py_int_of_str ''0'' = Inr 0"
    by (simp add: py_int_of_str_def is_int_space_def is_digit_def digits_value_def
          digit_value_def)
  have 1: "search utc_zone example_fs [(''page'', ''abc'')] = Inl ValueError"
    by (simp add: search_def a)
  have 2: "search utc_zone example_fs [(''profile'', ''default''), (''page'', ''0'')] =
     Inr \<lparr>resp_results = resp_results example_response, resp_total_count = 2, resp_page = 0,
          resp_per_page = 50, resp_total_pages = 1\<rparr>"
    by (simp add: search_def b args_get_def strip_def parse_date_arg_def PER_PAGE_def
        search_history_def build_where_clause_def store_defs example_defs example_times
        format_defs example_response_def)
  show ?thesis using 1 2 by simp
qed

subsection \<open>Conversions around the end of daylight saving time\<close>

lemma pacific_01_10_pst: "chrome_time_to_datetime pacific_zone 13375098600000000 =
    Inr \<lparr>year = 2024, month = 11, day = 3, hour = 1, minute = 10, second = 0, microsecond = 0\<rparr>"
  using chrome_time_to_datetime_seconds[of 13375098600 pacific_zone]
  by (simp add: CHROME_EPOCH_OFFSET_def zone_defs pacific_zone_def calendar_defs)

lemma pacific_01_30_pdt: "chrome_time_to_datetime pacific_zone 13375096200000000 =
    Inr \<lparr>year = 2024, month = 11, day = 3, hour = 1, minute = 30, second = 0, microsecond = 0\<rparr>"
  using chrome_time_to_datetime_seconds[of 13375096200 pacific_zone]
  by (simp add: CHROME_EPOCH_OFFSET_def zone_defs pacific_zone_def calendar_defs)

lemma pacific_01_20_pdt: "chrome_time_to_datetime pacific_zone 13375095600000000 =
    Inr \<lparr>year = 2024, month = 11, day = 3, hour = 1, minute = 20, second = 0, microsecond = 0\<rparr>"
  using chrome_time_to_datetime_seconds[of 13375095600 pacific_zone]
  by (simp add: CHROME_EPOCH_OFFSET_def zone_defs pacific_zone_def calendar_defs)

lemmas dst_times = pacific_01_10_pst pacific_01_30_pdt pacific_01_20_pdt

lemmas dst_defs = dst_fs_def dst_db_a_def dst_db_b_def late_record_def early_record_def
  other_record_def

text \<open>
  C7, at the failing input. In the Pacific zone, over the snapshots around the end of
  daylight saving time, the merged page of both profiles lists the visits of 08:30Z,
  08:20Z and 09:10Z in this order: the merge sorts by the \<^verbatim>\<open>visit_time\<close> text (local
  wall-clock time), and the stored visit times of the page go up at its end. The
  single-profile page of \<^verbatim>\<open>default\<close> is in the order of the stored times (SQL), and there
  the \<^verbatim>\<open>visit_time\<close> texts go up: the two paths order by different keys.
\<close>

theorem merged_page_not_time_descending:
  "search_history pacific_zone dst_fs None None None (Some [''default'', ''profile7'']) 1 50 =
     Inr ([early_record, other_record, late_record], 3) \<and>
   map (stored_times pacific_zone dst_fs []
          (active_profiles_of dst_fs [''default'', ''profile7'']))
     [early_record, other_record, late_record] =
     [[13375096200000000], [13375095600000000], [13375098600000000]] \<and>
   search_history pacific_zone dst_fs None None None (Some [''default'']) 1 50 =
     Inr ([late_record, early_record], 2) \<and>
   rec_visit_time late_record < rec_visit_time early_record"
proof -
  have 1: "search_history pacific_zone dst_fs None None None (Some [''default'', ''profile7''])
             1 50 = Inr ([early_record, other_record, late_record], 3)"
    by (simp add: search_history_def build_where_clause_def store_defs dst_defs dst_times
          format_defs py_slice_def slice_index_def)
  have 2: "map (stored_times pacific_zone dst_fs []
                  (active_profiles_of dst_fs [''default'', ''profile7'']))
             [early_record, other_record, late_record] =
           [[13375096200000000], [13375095600000000], [13375098600000000]]"
    by (simp add: stored_times_def matching_visits_def store_defs dst_defs dst_times format_defs)
  have 3: "search_history pacific_zone dst_fs None None None (Some [''default'']) 1 50 =
             Inr ([late_record, early_record], 2)"
    by (simp add: search_history_def build_where_clause_def store_defs dst_defs dst_times
          format_defs)
  have 4: "rec_visit_time late_record < rec_visit_time early_record"
    by (simp add: dst_defs)
  show ?thesis using 1 2 3 4 by simp
qed

subsection \<open>The merged page\<close>

text \<open>
  C1, at the failing input. In the Pacific zone, over the snapshots around the end of
  daylight saving time, with \<open>page = 1\<close> and \<open>per_page = 1\<close>: each profile is fetched in
  the order of its stored times with limit 1 (09:10Z from \<^verbatim>\<open>default\<close>, 08:20Z from
  \<^verbatim>\<open>profile7\<close>) and the merge sorts by the \<^verbatim>\<open>visit_time\<close> text, so the search returns the
  record of 08:20Z (01:20 local). The union of all matching records starts with the
  record of 08:30Z (01:30 local) when it is sorted by the \<^verbatim>\<open>visit_time\<close> text, and with the
  record of 09:10Z when it is sorted by the stored time: the page is the leading record
  of neither. The total, 3, is the sum of the counts.
\<close>

theorem merged_page_misses_leading_record:
  "search_history pacific_zone dst_fs None None None (Some [''default'', ''profile7'']) 1 1 =
     Inr ([other_record], 3) \<and>
   merged_page pacific_zone dst_fs []
     (active_profiles_of dst_fs [''default'', ''profile7'']) 1 1 = [early_record] \<and>
   merged_page_by_instant pacific_zone dst_fs []
     (active_profiles_of dst_fs [''default'', ''profile7'']) 1 1 = [late_record] \<and>
   other_record \<noteq> early_record \<and> other_record \<noteq> late_record"
proof -
  have 1: "search_history pacific_zone dst_fs None None None (Some [''default'', ''profile7''])
             1 1 = Inr ([other_record], 3)"
    by (simp add: search_history_def build_where_clause_def store_defs dst_defs dst_times
          format_defs py_slice_def slice_index_def)
  have 2: "merged_page pacific_zone dst_fs []
             (active_profiles_of dst_fs [''default'', ''profile7'']) 1 1 = [early_record]"
    by (simp add: merged_page_def matching_visits_def store_defs dst_defs dst_times
          format_defs py_slice_def slice_index_def)
  have 3: "merged_page_by_instant pacific_zone dst_fs []
             (active_profiles_of dst_fs [''default'', ''profile7'']) 1 1 = [late_record]"
    by (simp add: merged_page_by_instant_def matching_visits_def store_defs dst_defs dst_times
          format_defs py_slice_def slice_index_def)
  have 4: "other_record \<noteq> early_record \<and> other_record \<noteq> late_record"
    by (simp add: dst_defs)
  show ?thesis using 1 2 3 4 by simp
qed

subsection \<open>Floats: rounding does not cross a representable integer\<close>

lemma round_half_even_ge: "of_int i \<le> x \<Longrightarrow> i \<le> round_half_even x"
proof -
  assume "of_int i \<le> x"
  then have "i \<le> \<lfloor>x\<rfloor>" by (simp add: le_floor_iff)
  then show ?thesis by (auto simp: round_half_even_def Let_def)
qed

lemma round_half_even_le: "x \<le> of_int i \<Longrightarrow> round_half_even x \<le> i"
proof -
  assume le: "x \<le> of_int i"
  have "of_int \<lfloor>x\<rfloor> \<le> x" by simp
  then have "rat_of_int \<lfloor>x\<rfloor> \<le> of_int i" using le by (rule order_trans)
  then have f: "\<lfloor>x\<rfloor> \<le> i" by (simp only: of_int_le_iff)
  show ?thesis
  proof (cases "x - of_int \<lfloor>x\<rfloor> < 1 / 2")
    case True
    then show ?thesis using f by (simp add: round_half_even_def Let_def)
  next
    case False
    then have "of_int \<lfloor>x\<rfloor> < x" by linarith
    then have "rat_of_int \<lfloor>x\<rfloor> < of_int i" using le by (rule less_le_trans)
    then have "\<lfloor>x\<rfloor> < i" by (simp only: of_int_less_iff)
    then have "\<lfloor>x\<rfloor> + 1 \<le> i" by simp
    then show ?thesis using f by (simp add: round_half_even_def Let_def)
  qed
qed

lemma round_half_even_minus: "round_half_even (- x) = - round_half_even x"
proof (cases "x = of_int \<lfloor>x\<rfloor>")
  case True
  then obtain i where "x = of_int i" ..
  then have "- x = of_int (- i)" by simp
  then show ?thesis unfolding \<open>x = of_int i\<close>
    by (simp only: round_half_even_of_int)
next
  case False
  define f where "f = \<lfloor>x\<rfloor>"
  define d where "d = x - of_int f"
  have c: "\<lceil>x\<rceil> = f + 1" using False by (simp add: ceiling_altdef f_def)
  have "\<lfloor>- x\<rfloor> = - \<lceil>x\<rceil>" by (simp add: ceiling_def)
  then have fm: "\<lfloor>- x\<rfloor> = - f - 1" using c by simp
  have dm: "- x - of_int (- f - 1) = 1 - d" by (simp add: d_def)
  have r: "round_half_even x =
      (if d < 1 / 2 then f else if 1 / 2 < d then f + 1 else if even f then f else f + 1)"
    by (simp add: round_half_even_def Let_def f_def d_def)
  have rm: "round_half_even (- x) =
      (if 1 - d < 1 / 2 then - f - 1 else if 1 / 2 < 1 - d then - f
       else if even (- f - 1) then - f - 1 else - f)"
    unfolding round_half_even_def Let_def fm dm by simp
  consider "d < 1 / 2" | "1 / 2 < d" | "d = 1 / 2" by linarith
  then show ?thesis
  proof cases
    case 1
    then have "\<not> 1 - d < 1 / 2" "1 / 2 < 1 - d" by linarith+
    with 1 show ?thesis by (simp only: r rm if_True if_False)
  next
    case 2
    then have "1 - d < 1 / 2" "\<not> d < 1 / 2" by linarith+
    with 2 show ?thesis by (simp only: r rm if_True if_False)
  next
    case 3
    then have a: "\<not> 1 - d < 1 / 2" "\<not> 1 / 2 < 1 - d" "\<not> d < 1 / 2" "\<not> 1 / 2 < d" by simp_all
    have e: "even (- f - 1) \<longleftrightarrow> \<not> even f" by simp
    show ?thesis by (simp only: r rm a if_False e) simp
  qed
qed

lemma float_exponent_minus: "float_exponent (- x) = float_exponent x"
  by (simp add: float_exponent_def)

lemma fl_minus: "fl (- x) = - fl x"
  by (simp add: fl_def float_exponent_minus round_half_even_minus Let_def)

lemma fl_pos_le:
  assumes x: "0 < x" and le: "x \<le> of_int N" and N: "N < 2 ^ 53"
  shows "fl x \<le> of_int N"
proof -
  define e where "e = float_exponent x"
  define m where "m = max (e - 52) (- 1074)"
  have x0: "x \<noteq> 0" using x by simp
  have "pow2 e \<le> \<bar>x\<bar>" unfolding e_def using x0 by (rule float_exponent_le)
  also have "\<bar>x\<bar> \<le> of_int N" using x le by simp
  also have "rat_of_int N < rat_of_int (2 ^ 53)" using N by (simp only: of_int_less_iff)
  also have "rat_of_int (2 ^ 53) = pow2 53" by (simp add: pow2_def)
  finally have "e < 53" by (rule pow2_less_cancel)
  then have m0: "m \<le> 0" by (simp add: m_def)
  define j where "j = nat (- m)"
  have pm: "pow2 m = 1 / 2 ^ j"
    using m0 by (cases "m = 0") (simp_all add: pow2_def j_def)
  have "x / pow2 m \<le> of_int N / pow2 m"
    using le pow2_pos[of m] by (simp add: divide_right_mono)
  also have "of_int N / pow2 m = of_int (N * 2 ^ j)" by (simp add: pm)
  finally have "round_half_even (x / pow2 m) \<le> N * 2 ^ j" by (rule round_half_even_le)
  then have "rat_of_int (round_half_even (x / pow2 m)) \<le> rat_of_int (N * 2 ^ j)"
    by (simp only: of_int_le_iff)
  then have "rat_of_int (round_half_even (x / pow2 m)) * pow2 m \<le> rat_of_int (N * 2 ^ j) * pow2 m"
    using pow2_pos[of m] by (simp add: mult_right_mono)
  also have "rat_of_int (N * 2 ^ j) * pow2 m = of_int N" by (simp add: pm)
  finally show ?thesis using x0 by (simp add: fl_def Let_def e_def m_def)
qed

lemma fl_pos_ge:
  assumes x: "0 < x" and le: "of_int N \<le> x" and N: "N < 2 ^ 53"
  shows "of_int N \<le> fl x"
proof -
  define e where "e = float_exponent x"
  define m where "m = max (e - 52) (- 1074)"
  have x0: "x \<noteq> 0" using x by simp
  have fl: "fl x = of_int (round_half_even (x / pow2 m)) * pow2 m"
    using x0 by (simp add: fl_def Let_def e_def m_def)
  have ex: "pow2 e \<le> x" using float_exponent_le[OF x0] x by (simp add: e_def)
  show ?thesis
  proof (cases "m \<le> 0")
    case True
    define j where "j = nat (- m)"
    have pm: "pow2 m = 1 / 2 ^ j"
      using True by (cases "m = 0") (simp_all add: pow2_def j_def)
    have "rat_of_int (N * 2 ^ j) = of_int N / pow2 m" by (simp add: pm)
    also have "\<dots> \<le> x / pow2 m" using le pow2_pos[of m] by (simp add: divide_right_mono)
    finally have "N * 2 ^ j \<le> round_half_even (x / pow2 m)" by (rule round_half_even_ge)
    then have "rat_of_int (N * 2 ^ j) \<le> rat_of_int (round_half_even (x / pow2 m))"
      by (simp only: of_int_le_iff)
    then have "rat_of_int (N * 2 ^ j) * pow2 m \<le> rat_of_int (round_half_even (x / pow2 m)) * pow2 m"
      using pow2_pos[of m] by (simp add: mult_right_mono)
    moreover have "rat_of_int (N * 2 ^ j) * pow2 m = of_int N" by (simp add: pm)
    ultimately have "rat_of_int N \<le> rat_of_int (round_half_even (x / pow2 m)) * pow2 m"
      by (simp only:)
    then show ?thesis by (simp only: fl)
  next
    case False
    then have me: "m = e - 52" and e: "52 < e" by (simp_all add: m_def)
    have "pow2 e = pow2 52 * pow2 m" by (simp add: me flip: pow2_add)
    then have "pow2 52 * pow2 m \<le> x" using ex by simp
    then have "pow2 52 \<le> x / pow2 m" using pow2_pos[of m] by (simp add: pos_le_divide_eq)
    moreover have "pow2 52 = rat_of_int (2 ^ 52)" by (simp add: pow2_def)
    ultimately have "rat_of_int (2 ^ 52) \<le> x / pow2 m" by simp
    then have "2 ^ 52 \<le> round_half_even (x / pow2 m)" by (rule round_half_even_ge)
    then have "rat_of_int (2 ^ 52) \<le> rat_of_int (round_half_even (x / pow2 m))"
      by (simp only: of_int_le_iff)
    then have "rat_of_int (2 ^ 52) * pow2 m \<le> fl x"
      unfolding fl using pow2_pos[of m] by (simp add: mult_right_mono)
    moreover have "rat_of_int (2 ^ 52) \<le> rat_of_int (2 ^ 52) * pow2 m"
    proof -
      have "pow2 0 \<le> pow2 m" using False by (intro pow2_mono) simp
      then have "1 \<le> pow2 m" by (simp add: pow2_def)
      then show ?thesis by simp
    qed
    moreover have "rat_of_int N \<le> rat_of_int (2 ^ 53)" using N by (simp only: of_int_le_iff)
    moreover have "rat_of_int (2 ^ 53) \<le> rat_of_int (2 ^ 52) * pow2 m"
    proof -
      have "pow2 1 \<le> pow2 m" using False by (intro pow2_mono) simp
      then have "2 \<le> pow2 m" by (simp add: pow2_def)
      then have "rat_of_int (2 ^ 52) * 2 \<le> rat_of_int (2 ^ 52) * pow2 m"
        by (intro mult_left_mono) simp_all
      then show ?thesis by simp
    qed
    ultimately show ?thesis by linarith
  qed
qed

lemma fl_ge:
  assumes N: "\<bar>N\<bar> < 2 ^ 53" and le: "of_int N \<le> x"
  shows "of_int N \<le> fl x"
proof -
  consider "0 < x" | "x = 0" | "x < 0" by linarith
  then show ?thesis
  proof cases
    case 1
    then show ?thesis using le N by (intro fl_pos_ge) simp_all
  next
    case 2
    then show ?thesis using le by (simp add: fl_def)
  next
    case 3
    then have "0 < - x" by simp
    moreover have "- x \<le> of_int (- N)" using le by simp
    moreover have "- N < 2 ^ 53" using N by simp
    ultimately have "fl (- x) \<le> of_int (- N)" by (rule fl_pos_le)
    then show ?thesis by (simp add: fl_minus)
  qed
qed

lemma fl_le:
  assumes N: "\<bar>N\<bar> < 2 ^ 53" and le: "x \<le> of_int N"
  shows "fl x \<le> of_int N"
proof -
  have "of_int (- N) \<le> fl (- x)" using N le by (intro fl_ge) simp_all
  then show ?thesis by (simp add: fl_minus)
qed

subsection \<open>The range of the conversion\<close>

lemma py_int_of_float_ge: "of_int N \<le> d \<Longrightarrow> N \<le> py_int_of_float d"
  by (auto simp: py_int_of_float_def le_floor_iff le_ceiling_iff intro: order_trans)

lemma py_int_of_float_le: "d \<le> of_int N \<Longrightarrow> py_int_of_float d \<le> N"
  by (auto simp: py_int_of_float_def floor_le_iff ceiling_le_iff intro: order_trans)

lemma timeval_near: 
  "fst (timestamp_to_timeval d) \<in> {py_int_of_float d - 1, py_int_of_float d, py_int_of_float d + 1}"
  by (simp add: timestamp_to_timeval_def Let_def)

lemma timeval_ge: "of_int N \<le> d \<Longrightarrow> N - 1 \<le> fst (timestamp_to_timeval d)"
  using py_int_of_float_ge[of N d] timeval_near[of d] by auto

lemma timeval_le: "d \<le> of_int N \<Longrightarrow> fst (timestamp_to_timeval d) \<le> N + 1"
  using py_int_of_float_le[of d N] timeval_near[of d] by auto

lemma unix_timestamp_ge:
  assumes "K * 1000000 \<le> c" and "\<bar>K\<bar> < 2 ^ 52"
  shows "of_int (K - CHROME_EPOCH_OFFSET) \<le> fl (fl (of_int c / 1000000) - of_int CHROME_EPOCH_OFFSET)"
proof -
  have "rat_of_int (K * 1000000) \<le> of_int c" using assms(1) by (simp only: of_int_le_iff)
  then have "rat_of_int K \<le> of_int c / 1000000" by simp
  then have "rat_of_int K \<le> fl (of_int c / 1000000)"
    using assms(2) by (intro fl_ge) simp_all
  then have "rat_of_int (K - CHROME_EPOCH_OFFSET) \<le> fl (of_int c / 1000000) - of_int CHROME_EPOCH_OFFSET"
    by simp
  then show ?thesis
    using assms(2) by (intro fl_ge) (simp_all add: CHROME_EPOCH_OFFSET_def)
qed

lemma unix_timestamp_le:
  assumes "c \<le> K * 1000000" and "\<bar>K\<bar> < 2 ^ 52"
  shows "fl (fl (of_int c / 1000000) - of_int CHROME_EPOCH_OFFSET) \<le> of_int (K - CHROME_EPOCH_OFFSET)"
proof -
  have "rat_of_int c \<le> of_int (K * 1000000)" using assms(1) by (simp only: of_int_le_iff)
  then have "of_int c / 1000000 \<le> rat_of_int K" by simp
  then have "fl (of_int c / 1000000) \<le> rat_of_int K"
    using assms(2) by (intro fl_le) simp_all
  then have "fl (of_int c / 1000000) - of_int CHROME_EPOCH_OFFSET \<le> rat_of_int (K - CHROME_EPOCH_OFFSET)"
    by simp
  then show ?thesis
    using assms(2) by (intro fl_le) (simp_all add: CHROME_EPOCH_OFFSET_def)
qed

lemma chrome_time_to_datetime_cases:
  "chrome_time_to_datetime tz c =
     (if float_overflow (fl (of_int c / 1000000)) then Inl OverflowError
      else datetime_from_timet_and_us tz
             (fst (timestamp_to_timeval (fl (fl (of_int c / 1000000) - of_int CHROME_EPOCH_OFFSET))))
             (snd (timestamp_to_timeval (fl (fl (of_int c / 1000000) - of_int CHROME_EPOCH_OFFSET)))))"
  by (simp add: chrome_time_to_datetime_def Let_def py_fromtimestamp_def split: prod.splits)

lemma local_fails_high: "\<bar>tz u\<bar> < 86400 \<Longrightarrow> MAX_WALL + 86400 \<le> u \<Longrightarrow> isl (local tz u)"
  by (auto simp: local_def Let_def)

lemma local_fails_low: "\<bar>tz u\<bar> < 86400 \<Longrightarrow> u \<le> MIN_WALL - 86400 \<Longrightarrow> isl (local tz u)"
  by (auto simp: local_def Let_def)

lemma local_ok:
  "\<bar>tz u\<bar> < 86400 \<Longrightarrow> MIN_WALL + 86400 \<le> u \<Longrightarrow> u \<le> MAX_WALL - 86400 \<Longrightarrow>
   local tz u = Inr (u + tz u)"
  by (auto simp: local_def Let_def int64_def MIN_WALL_def MAX_WALL_def)

lemma datetime_from_timet_fails:
  "isl (local tz timet) \<Longrightarrow> isl (datetime_from_timet_and_us tz timet us)"
  by (auto simp: datetime_from_timet_and_us_def split: sum.splits)

lemma datetime_from_timet_ok:
  assumes zone: "\<forall>u. \<bar>tz u\<bar> < 86400"
    and lo: "MIN_WALL + 259200 \<le> timet" and hi: "timet \<le> MAX_WALL - 86400"
  shows "datetime_from_timet_and_us tz timet us = Inr (seconds_to_datetime (timet + tz timet) us)"
proof -
  have z: "\<bar>tz u\<bar> < 86400" for u using zone by simp
  have a: "local tz timet = Inr (timet + tz timet)"
    using z lo hi by (intro local_ok) simp_all
  have b: "local tz (timet - max_fold_seconds) = Inr (timet - max_fold_seconds + tz (timet - max_fold_seconds))"
    using z lo hi by (intro local_ok) (simp_all add: max_fold_seconds_def)
  define tr where "tr = timet + tz timet - (timet - max_fold_seconds + tz (timet - max_fold_seconds)) - max_fold_seconds"
  have tr: "- 172800 < tr" using z[of timet] z[of "timet - max_fold_seconds"]
    by (simp add: tr_def)
  have c: "tr < 0 \<Longrightarrow> local tz (timet + tr) = Inr (timet + tr + tz (timet + tr))"
    using z lo hi tr by (intro local_ok) simp_all
  show ?thesis
    unfolding datetime_from_timet_and_us_def a b sum.case Let_def tr_def[symmetric]
    using c by (cases "tr < 0") simp_all
qed

text \<open>
  C6 (as amended). In a zone whose UTC offsets stay within a day, the conversion surfaces
  an explicit error for every input beyond the range of \<^verbatim>\<open>datetime\<close>: every
  \<open>chrome_time \<ge> 265046860800000000\<close> (local time after year 9999, which covers every
  input large enough to overflow) and every \<open>chrome_time \<le> -50491209601000000\<close> (local
  time before year 1). Inside the range, from \<open>-50490863999000000\<close> to
  \<open>265046687998000000\<close>, it returns a datetime; a negative input there is not an error.
\<close>

theorem conversion_error_range:
  assumes zone: "\<forall>u. \<bar>tz u\<bar> < 86400"
  shows "(chrome_time \<le> - 50491209601000000 \<or> 265046860800000000 \<le> chrome_time \<longrightarrow>
            isl (chrome_time_to_datetime tz chrome_time)) \<and>
         (- 50490863999000000 \<le> chrome_time \<and> chrome_time \<le> 265046687998000000 \<longrightarrow>
            \<not> isl (chrome_time_to_datetime tz chrome_time))"
proof -
  define d where "d = fl (fl (of_int chrome_time / 1000000) - of_int CHROME_EPOCH_OFFSET)"
  define timet where "timet = fst (timestamp_to_timeval d)"
  have z: "\<bar>tz u\<bar> < 86400" for u using zone by simp
  have conv: "chrome_time_to_datetime tz chrome_time =
     (if float_overflow (fl (of_int chrome_time / 1000000)) then Inl OverflowError
      else datetime_from_timet_and_us tz timet (snd (timestamp_to_timeval d)))"
    unfolding timet_def d_def by (rule chrome_time_to_datetime_cases)
  have high: "isl (chrome_time_to_datetime tz chrome_time)" if "265046860800000000 \<le> chrome_time"
  proof -
    have "265046860800 * 1000000 \<le> chrome_time" using that by simp
    then have "of_int (265046860800 - CHROME_EPOCH_OFFSET) \<le> d"
      unfolding d_def by (rule unix_timestamp_ge) simp
    then have "265046860800 - CHROME_EPOCH_OFFSET - 1 \<le> timet"
      unfolding timet_def by (rule timeval_ge)
    then have "MAX_WALL + 86400 \<le> timet" by (simp add: CHROME_EPOCH_OFFSET_def MAX_WALL_def)
    then have "isl (local tz timet)" using z by (intro local_fails_high)
    then show ?thesis unfolding conv by (simp add: datetime_from_timet_fails)
  qed
  have low: "isl (chrome_time_to_datetime tz chrome_time)" if "chrome_time \<le> - 50491209601000000"
  proof -
    have "chrome_time \<le> (- 50491209601) * 1000000" using that by simp
    then have "d \<le> of_int (- 50491209601 - CHROME_EPOCH_OFFSET)"
      unfolding d_def by (rule unix_timestamp_le) simp
    then have "timet \<le> - 50491209601 - CHROME_EPOCH_OFFSET + 1"
      unfolding timet_def by (rule timeval_le)
    then have "timet \<le> MIN_WALL - 86400" by (simp add: CHROME_EPOCH_OFFSET_def MIN_WALL_def)
    then have "isl (local tz timet)" using z by (intro local_fails_low)
    then show ?thesis unfolding conv by (simp add: datetime_from_timet_fails)
  qed
  have mid: "\<not> isl (chrome_time_to_datetime tz chrome_time)"
    if lo: "- 50490863999000000 \<le> chrome_time" and hi: "chrome_time \<le> 265046687998000000"
  proof -
    have "(- 50490863999) * 1000000 \<le> chrome_time" using lo by simp
    then have "of_int (- 50490863999 - CHROME_EPOCH_OFFSET) \<le> d"
      unfolding d_def by (rule unix_timestamp_ge) simp
    then have "- 50490863999 - CHROME_EPOCH_OFFSET - 1 \<le> timet"
      unfolding timet_def by (rule timeval_ge)
    then have t1: "MIN_WALL + 259200 \<le> timet" by (simp add: CHROME_EPOCH_OFFSET_def MIN_WALL_def)
    have "chrome_time \<le> 265046687998 * 1000000" using hi by simp
    then have "d \<le> of_int (265046687998 - CHROME_EPOCH_OFFSET)"
      unfolding d_def by (rule unix_timestamp_le) simp
    then have "timet \<le> 265046687998 - CHROME_EPOCH_OFFSET + 1"
      unfolding timet_def by (rule timeval_le)
    then have t2: "timet \<le> MAX_WALL - 86400" by (simp add: CHROME_EPOCH_OFFSET_def MAX_WALL_def)
    have q1: "rat_of_int (- 50490863999) \<le> fl (of_int chrome_time / 1000000)"
    proof (rule fl_ge)
      have "rat_of_int ((- 50490863999) * 1000000) \<le> of_int chrome_time"
        using lo by (simp only: of_int_le_iff)
      then show "rat_of_int (- 50490863999) \<le> of_int chrome_time / 1000000" by simp
    qed simp
    have q2: "fl (of_int chrome_time / 1000000) \<le> rat_of_int 265046687998"
    proof (rule fl_le)
      have "rat_of_int chrome_time \<le> of_int (265046687998 * 1000000)"
        using hi by (simp only: of_int_le_iff)
      then show "of_int chrome_time / 1000000 \<le> rat_of_int 265046687998" by simp
    qed simp
    have "\<bar>fl (of_int chrome_time / 1000000)\<bar> \<le> 265046687998" using q1 q2 by simp
    also have "\<dots> < (2::rat) ^ 1024" by simp
    finally have "\<not> float_overflow (fl (of_int chrome_time / 1000000))"
      by (simp add: float_overflow_def)
    then show ?thesis
      unfolding conv using datetime_from_timet_ok[OF zone t1 t2] by simp
  qed
  show ?thesis using high low mid by blast
qed

theorem conversion_error_range_witness:
  "isl (chrome_time_to_datetime utc_zone 9223372036854775807) \<and>
   \<not> isl (chrome_time_to_datetime utc_zone (- 1000000))"
proof -
  have zone: "\<forall>u. \<bar>utc_zone u\<bar> < 86400" by (simp add: utc_zone_def)
  from conversion_error_range[OF zone, of 9223372036854775807]
  have "isl (chrome_time_to_datetime utc_zone 9223372036854775807)" by simp
  moreover from conversion_error_range[OF zone, of "- 1000000"]
  have "\<not> isl (chrome_time_to_datetime utc_zone (- 1000000))" by simp
  ultimately show ?thesis by simp
qed

text \<open>
  C6 as stated fails: \<open>-1000000\<close> is a negative input, and the conversion returns
  1600-12-31T23:59:59 (UTC), not an error.
\<close>

theorem negative_chrome_time_counterexample:
  "(- 1000000 :: int) < 0 \<and>
   chrome_time_to_datetime utc_zone (- 1000000) =
     Inr \<lparr>year = 1600, month = 12, day = 31, hour = 23, minute = 59, second = 59,
          microsecond = 0\<rparr>"
  using chrome_time_to_datetime_seconds[of "- 1" utc_zone]
  by (simp add: CHROME_EPOCH_OFFSET_def zone_defs utc_zone_def calendar_defs)

end
